theory Spec2Isabelle
  imports Main "HOL-Library.Word"
begin

section \<open>Bytes, slices and the values of the codec\<close>

text \<open>
  A Python \<^verbatim>\<open>bytes\<close> object is a list of 8-bit words. Every slice of the source has
  the form \<^verbatim>\<open>b[i:j]\<close> with \<open>0 \<le> i \<le> j\<close>; Python clips such a slice to the length
  of \<^verbatim>\<open>b\<close> and never raises, which is what \<open>take\<close> and \<open>drop\<close> do.
\<close>

type_synonym byte = "8 word"
type_synonym bytes = "byte list"

definition slice :: "bytes \<Rightarrow> nat \<Rightarrow> nat \<Rightarrow> bytes" where
  "slice b i j = take (j - i) (drop i b)"

text \<open>\<^verbatim>\<open>bytes.lower()\<close>: the ASCII capitals 0x41..0x5A are moved to 0x61..0x7A.\<close>

definition lower_byte :: "byte \<Rightarrow> byte" where
  "lower_byte c = (if 0x41 \<le> c \<and> c \<le> 0x5A then c + 0x20 else c)"

definition lower :: "bytes \<Rightarrow> bytes" where
  "lower b = map lower_byte b"

text \<open>The literals \<^verbatim>\<open>b'fn'\<close>, \<^verbatim>\<open>b'FN'\<close>, \<^verbatim>\<open>b'ND'\<close> and \<^verbatim>\<open>b'\x00'\<close>.\<close>

definition b_fn :: bytes where "b_fn = [0x66, 0x6E]"
definition b_FN :: bytes where "b_FN = [0x46, 0x4E]"
definition b_ND :: bytes where "b_ND = [0x4E, 0x44]"
definition b_nul :: bytes where "b_nul = [0x00]"

text \<open>
  Python 3 keeps text and bytes apart: a literal without the prefix \<^verbatim>\<open>b\<close> is a
  \<^verbatim>\<open>str\<close>, a sequence of code points, and no \<^verbatim>\<open>str\<close> equals any \<^verbatim>\<open>bytes\<close>.
  The code points of the literals of the source are below 256, one \<open>char\<close> each.
\<close>

datatype pyval = Str string | Bytes bytes

text \<open>
  The record the decoder hands to a parsing rule (\<^verbatim>\<open>packet_info\<close>) is a dictionary: the
  key \<^verbatim>\<open>'id'\<close> holds the name of the response, every other key holds the raw bytes of
  a field. Reading a key that is absent raises \<^verbatim>\<open>KeyError\<close>.
\<close>

record packet_info =
  id_name :: string
  item :: "string \<rightharpoonup> bytes"

text \<open>
  What a call can do: run forever, raise, or return. \<^verbatim>\<open>ValueError_ND_length e r\<close> is
  the \<^verbatim>\<open>ValueError\<close> of line 175, whose message reports \<open>e\<close> as the expected and
  \<open>r\<close> as the read number of bytes.
\<close>

datatype error = KeyError string | ValueError_ND_length nat nat

datatype ('e, 'a) outcome = Diverges | Raises 'e | Returns 'a

type_synonym result = "string \<rightharpoonup> bytes"

section \<open>The parsing rule \<^verbatim>\<open>_parse_FN_at_response\<close>\<close>

text \<open>
  The test of line 146. Python's \<^verbatim>\<open>and\<close> evaluates from the left and stops at the
  first false operand, so \<^verbatim>\<open>'command'\<close> is read only when the name matched and
  \<^verbatim>\<open>'status'\<close> only when the command matched.
\<close>

definition is_FN_response :: "packet_info \<Rightarrow> error + bool" where
  "is_FN_response packet_info =
     (if id_name packet_info \<notin> {''at_response'', ''at_remote_response''} then Inr False
      else (case item packet_info ''command'' of
        None \<Rightarrow> Inl (KeyError ''command'')
      | Some command \<Rightarrow>
          (if lower command \<noteq> b_fn then Inr False
           else (case item packet_info ''status'' of
             None \<Rightarrow> Inl (KeyError ''status'')
           | Some status \<Rightarrow> Inr (status = b_nul)))))"

text \<open>
  The loop of lines 152 to 154. The index is a Python integer and has no upper bound;
  a slice that starts beyond the end is empty, hence different from \<^verbatim>\<open>b'\x00'\<close>. The
  loop is a partial function: \<open>None\<close> is the run that never leaves it.
\<close>

partial_function (option) find_null_terminator :: "bytes \<Rightarrow> nat \<Rightarrow> nat option" where
  "find_null_terminator parameter null_terminator_index =
     (if slice parameter null_terminator_index (null_terminator_index + 1) \<noteq> b_nul
      then find_null_terminator parameter (null_terminator_index + 1)
      else Some null_terminator_index)"

declare find_null_terminator.simps [code]

text \<open>
  Lines 149, 150 and 156 to 161: the sub-fields at fixed offsets and those placed
  relative to the terminator. The dictionary is local to the call, so the two entries
  stored before the loop are written here together with the others.
\<close>

definition fixed_fields :: "bytes \<Rightarrow> nat \<Rightarrow> result" where
  "fixed_fields parameter null_terminator_index =
     [''source_addr'' \<mapsto> slice parameter 0 2,
      ''source_addr_long'' \<mapsto> slice parameter 2 10,
      ''node_identifier'' \<mapsto> slice parameter 10 null_terminator_index,
      ''parent_address'' \<mapsto>
         slice parameter (null_terminator_index + 1) (null_terminator_index + 3),
      ''device_type'' \<mapsto>
         slice parameter (null_terminator_index + 3) (null_terminator_index + 4),
      ''status'' \<mapsto>
         slice parameter (null_terminator_index + 4) (null_terminator_index + 5),
      ''profile_id'' \<mapsto>
         slice parameter (null_terminator_index + 5) (null_terminator_index + 7),
      ''manufacturer'' \<mapsto>
         slice parameter (null_terminator_index + 7) (null_terminator_index + 9)]"

text \<open>
  Lines 163 to 172: the two optional layouts. The difference
  \<^verbatim>\<open>len(parameter) - null_terminator_index - 9\<close> is computed on Python integers and may
  be negative. The pair returned is the dictionary and the advanced index.
\<close>

definition optional_fields :: "bytes \<Rightarrow> nat \<Rightarrow> result \<Rightarrow> result \<times> nat" where
  "optional_fields parameter null_terminator_index result =
     (if int (length parameter) - int null_terminator_index - 9 = 4 then
        (result(''device_type_id'' \<mapsto>
           slice parameter (null_terminator_index + 9) (null_terminator_index + 13)),
         null_terminator_index + 4)
      else if int (length parameter) - int null_terminator_index - 9 = 5 then
        (result(''device_type_id'' \<mapsto>
           slice parameter (null_terminator_index + 9) (null_terminator_index + 13),
           ''rssi'' \<mapsto>
           slice parameter (null_terminator_index + 13) (null_terminator_index + 14)),
         null_terminator_index + 5)
      else (result, null_terminator_index))"

text \<open>Lines 147 to 177: the body run once the test of line 146 has passed.\<close>

definition parse_parameter :: "bytes \<Rightarrow> (error, result option) outcome" where
  "parse_parameter parameter =
     (case find_null_terminator parameter 10 of
        None \<Rightarrow> Diverges
      | Some null_terminator_index \<Rightarrow>
          (case optional_fields parameter null_terminator_index
                  (fixed_fields parameter null_terminator_index) of
             (result, null_terminator_index') \<Rightarrow>
               if null_terminator_index' + 9 \<noteq> length parameter
               then Raises (ValueError_ND_length (length parameter) (null_terminator_index' + 9))
               else Returns (Some result)))"

text \<open>
  The whole method. A Python function whose \<^verbatim>\<open>if\<close> is not taken falls off its end
  and returns \<^verbatim>\<open>None\<close>: that is \<open>Returns None\<close>.
\<close>

definition parse_FN_at_response :: "packet_info \<Rightarrow> (error, result option) outcome" where
  "parse_FN_at_response packet_info =
     (case is_FN_response packet_info of
        Inl e \<Rightarrow> Raises e
      | Inr False \<Rightarrow> Returns None
      | Inr True \<Rightarrow>
          (case item packet_info ''parameter'' of
             None \<Rightarrow> Raises (KeyError ''parameter'')
           | Some parameter \<Rightarrow> parse_parameter parameter))"

text \<open>
  The node identifier ends at index \<open>t\<close>: \<open>t\<close> is at least 10, the byte at \<open>t\<close> is
  zero, and no byte of \<^verbatim>\<open>parameter[10:t]\<close> is zero.
\<close>

definition terminator_at :: "bytes \<Rightarrow> nat \<Rightarrow> bool" where
  "terminator_at parameter t \<longleftrightarrow>
     10 \<le> t \<and> slice parameter t (t + 1) = b_nul \<and> 0 \<notin> set (slice parameter 10 t)"

section \<open>The schema tables\<close>

text \<open>
  A field of a schema is a dictionary with the keys \<^verbatim>\<open>'name'\<close>, \<^verbatim>\<open>'len'\<close> and
  \<^verbatim>\<open>'default'\<close>. The length is an integer, \<^verbatim>\<open>None\<close> or the string
  \<^verbatim>\<open>'null_terminated'\<close>. A default of \<^verbatim>\<open>None\<close> and a field that has no
  \<^verbatim>\<open>'default'\<close> key (most fields of the responses) are both \<open>None\<close> here. Every
  default the source gives is written without the prefix \<^verbatim>\<open>b\<close>
  (\<^verbatim>\<open>'\x08'\<close>, \<^verbatim>\<open>'\xFF\xFE'\<close>): it is a \<^verbatim>\<open>str\<close>, not \<^verbatim>\<open>bytes\<close>.
\<close>

datatype pylen = LenInt nat | LenNone | LenNullTerminated

record field =
  name :: string
  len :: pylen
  default :: "pyval option"

text \<open>\<^verbatim>\<open>api_commands\<close>, lines 37 to 64, in the order of the source.\<close>

definition api_commands :: "(string \<times> field list) list" where
  "api_commands =
     [(''at'',
       [\<lparr>name = ''id'', len = LenInt 1, default = Some (Str [CHR 0x08])\<rparr>,
        \<lparr>name = ''frame_id'', len = LenInt 1, default = Some (Str [CHR 0x00])\<rparr>,
        \<lparr>name = ''command'', len = LenInt 2, default = None\<rparr>,
        \<lparr>name = ''parameter'', len = LenNone, default = None\<rparr>]),
      (''queued_at'',
       [\<lparr>name = ''id'', len = LenInt 1, default = Some (Str [CHR 0x09])\<rparr>,
        \<lparr>name = ''frame_id'', len = LenInt 1, default = Some (Str [CHR 0x00])\<rparr>,
        \<lparr>name = ''command'', len = LenInt 2, default = None\<rparr>,
        \<lparr>name = ''parameter'', len = LenNone, default = None\<rparr>]),
      (''remote_at'',
       [\<lparr>name = ''id'', len = LenInt 1, default = Some (Str [CHR 0x17])\<rparr>,
        \<lparr>name = ''frame_id'', len = LenInt 1, default = Some (Str [CHR 0x00])\<rparr>,
        \<lparr>name = ''dest_addr_long'', len = LenInt 8, default = None\<rparr>,
        \<lparr>name = ''reserved'', len = LenInt 2, default = Some (Str [CHR 0xFF, CHR 0xFE])\<rparr>,
        \<lparr>name = ''options'', len = LenInt 1, default = Some (Str [CHR 0x02])\<rparr>,
        \<lparr>name = ''command'', len = LenInt 2, default = None\<rparr>,
        \<lparr>name = ''parameter'', len = LenNone, default = None\<rparr>]),
      (''tx'',
       [\<lparr>name = ''id'', len = LenInt 1, default = Some (Str [CHR 0x10])\<rparr>,
        \<lparr>name = ''frame_id'', len = LenInt 1, default = Some (Str [CHR 0x00])\<rparr>,
        \<lparr>name = ''dest_addr'', len = LenInt 8, default = None\<rparr>,
        \<lparr>name = ''reserved'', len = LenInt 2, default = Some (Str [CHR 0xFF, CHR 0xFE])\<rparr>,
        \<lparr>name = ''broadcast_radius'', len = LenInt 1, default = Some (Str [CHR 0x00])\<rparr>,
        \<lparr>name = ''options'', len = LenInt 1, default = Some (Str [CHR 0x00])\<rparr>,
        \<lparr>name = ''data'', len = LenNone, default = None\<rparr>])]"

text \<open>
  A parsing rule pairs a field name with a function. The only function the table uses is
  \<^verbatim>\<open>lambda self, original: self._parse_FN_at_response(original)\<close>.
\<close>

datatype hook = Call_parse_FN_at_response

text \<open>
  An entry of \<^verbatim>\<open>api_responses\<close> is a dictionary with the keys \<^verbatim>\<open>'name'\<close>
  (\<open>packet_name\<close>) and \<^verbatim>\<open>'structure'\<close> (\<open>structure_fields\<close>) and, for some entries,
  \<^verbatim>\<open>'parsing'\<close>; \<open>parsing = None\<close> is the entry without that key.
\<close>

record packet =
  packet_name :: string
  structure_fields :: "field list"
  parsing :: "(string \<times> hook) list option"

text \<open>
  \<^verbatim>\<open>api_responses\<close>, lines 80 to 140. The dictionary of \<^verbatim>\<open>b"\x97"\<close> is closed at the
  end of line 137, so the \<^verbatim>\<open>'parsing'\<close> of lines 138 and 139 is an item of
  \<^verbatim>\<open>api_responses\<close> itself: a seventh key, the string \<^verbatim>\<open>'parsing'\<close>, whose value is a
  list of rules and not a packet. The keys are therefore byte strings or strings, and the
  values packets or lists of rules.
\<close>

datatype key = BytesKey bytes | StrKey string

datatype entry = Packet packet | Rules "(string \<times> hook) list"

definition api_responses :: "(key \<times> entry) list" where
  "api_responses =
     [(BytesKey [0x88], Packet
        \<lparr>packet_name = ''at_response'',
         structure_fields =
           [\<lparr>name = ''frame_id'', len = LenInt 1, default = None\<rparr>,
            \<lparr>name = ''command'', len = LenInt 2, default = None\<rparr>,
            \<lparr>name = ''status'', len = LenInt 1, default = None\<rparr>,
            \<lparr>name = ''parameter'', len = LenNone, default = None\<rparr>],
         parsing = Some [(''parameter'', Call_parse_FN_at_response)]\<rparr>),
      (BytesKey [0x8A], Packet
        \<lparr>packet_name = ''status'',
         structure_fields =
           [\<lparr>name = ''status'', len = LenInt 1, default = None\<rparr>],
         parsing = None\<rparr>),
      (BytesKey [0x8B], Packet
        \<lparr>packet_name = ''tx_status'',
         structure_fields =
           [\<lparr>name = ''frame_id'', len = LenInt 1, default = None\<rparr>,
            \<lparr>name = ''reserved'', len = LenInt 2, default = Some (Str [CHR 0xFF, CHR 0xFE])\<rparr>,
            \<lparr>name = ''retries'', len = LenInt 1, default = None\<rparr>,
            \<lparr>name = ''deliver_status'', len = LenInt 1, default = None\<rparr>,
            \<lparr>name = ''discover_status'', len = LenInt 1, default = None\<rparr>],
         parsing = None\<rparr>),
      (BytesKey [0x90], Packet
        \<lparr>packet_name = ''rx'',
         structure_fields =
           [\<lparr>name = ''frame_id'', len = LenInt 1, default = None\<rparr>,
            \<lparr>name = ''source_addr'', len = LenInt 7, default = None\<rparr>,
            \<lparr>name = ''reserved'', len = LenInt 2, default = None\<rparr>,
            \<lparr>name = ''options'', len = LenInt 1, default = None\<rparr>,
            \<lparr>name = ''data'', len = LenNone, default = None\<rparr>],
         parsing = None\<rparr>),
      (BytesKey [0x95], Packet
        \<lparr>packet_name = ''node_id'',
         structure_fields =
           [\<lparr>name = ''source_addr_long'', len = LenInt 8, default = None\<rparr>,
            \<lparr>name = ''network_addr'', len = LenInt 2, default = None\<rparr>,
            \<lparr>name = ''options'', len = LenInt 1, default = None\<rparr>,
            \<lparr>name = ''source_addr'', len = LenInt 2, default = None\<rparr>,
            \<lparr>name = ''network_addr_long'', len = LenInt 8, default = None\<rparr>,
            \<lparr>name = ''node_id'', len = LenNullTerminated, default = None\<rparr>,
            \<lparr>name = ''parent'', len = LenInt 2, default = None\<rparr>,
            \<lparr>name = ''unknown'', len = LenNone, default = None\<rparr>],
         parsing = None\<rparr>),
      (BytesKey [0x97], Packet
        \<lparr>packet_name = ''remote_at_response'',
         structure_fields =
           [\<lparr>name = ''frame_id'', len = LenInt 1, default = None\<rparr>,
            \<lparr>name = ''source_addr'', len = LenInt 8, default = None\<rparr>,
            \<lparr>name = ''reserved'', len = LenInt 2, default = None\<rparr>,
            \<lparr>name = ''command'', len = LenInt 2, default = None\<rparr>,
            \<lparr>name = ''status'', len = LenInt 1, default = None\<rparr>,
            \<lparr>name = ''parameter'', len = LenNone, default = None\<rparr>],
         parsing = None\<rparr>),
      (StrKey ''parsing'', Rules [(''parameter'', Call_parse_FN_at_response)])]"

text \<open>Running a rule's function on the record.\<close>

fun call_hook :: "hook \<Rightarrow> packet_info \<Rightarrow> (error, result option) outcome" where
  "call_hook Call_parse_FN_at_response original = parse_FN_at_response original"

section \<open>The encoder and the decoder\<close>

text \<open>
  The class inherits its encoder and its decoder from \<^verbatim>\<open>XBeeBase\<close> (module
  \<^verbatim>\<open>xbee.base\<close>, imported on line 13), whose text is not among the sources. Both are
  written here from sections 4.2, 4.3 and 7 of the specification, over the tables above.
\<close>

text \<open>Modelled from the spec: the error kinds of section 7, for the missing encoder and
  decoder of \<^verbatim>\<open>xbee.base\<close>. \<open>MissingRequiredField\<close> names the field and the command,
  \<open>MalformedSubRecord\<close> reports the expected and the actual length. The last three
  kinds are not named by the specification: an override of the wrong length, a parsing
  rule that misses a key of the record (which no registered schema allows), and
  Python's \<^verbatim>\<open>TypeError\<close> for joining a \<^verbatim>\<open>str\<close> to the bytes of the frame, with the
  name of the field whose value is the \<^verbatim>\<open>str\<close>.
\<close>

datatype codec_error =
    UnsupportedCommand
  | UnknownResponseType
  | MissingRequiredField string string
  | FieldLengthMismatch string
  | TruncatedFrame
  | UnterminatedField
  | TrailingData
  | MalformedSubRecord nat nat
  | SubRecordKeyError string
  | TypeError_concat string

text \<open>Modelled from the spec: the encoder's resolution of one field (section 4.2); the
  encoder of \<^verbatim>\<open>xbee.base\<close> is missing. An override is used when there is one, and its
  length must be the declared one when the field declares a fixed length; else the
  default is used; else the encoder fails and names the field and the command. The
  specification names no error for an override of the wrong length; it is
  \<open>FieldLengthMismatch\<close> here. An override is bytes; a default is the value the table
  holds, which in this source is a \<^verbatim>\<open>str\<close>.
\<close>

definition resolve_field :: "string \<Rightarrow> (string \<rightharpoonup> bytes) \<Rightarrow> field \<Rightarrow> codec_error + pyval" where
  "resolve_field command_name field_overrides f =
     (case field_overrides (name f) of
        Some v \<Rightarrow>
          (case len f of
             LenInt n \<Rightarrow> if length v = n then Inr (Bytes v) else Inl (FieldLengthMismatch (name f))
           | _ \<Rightarrow> Inr (Bytes v))
      | None \<Rightarrow>
          (case default f of
             Some d \<Rightarrow> Inr d
           | None \<Rightarrow> Inl (MissingRequiredField (name f) command_name)))"

text \<open>Modelled from the spec: the concatenation of the resolved fields in the order of the
  schema, with no separator and no length prefix (section 4.2); the encoder of
  \<^verbatim>\<open>xbee.base\<close> is missing. The result is a byte sequence, so each value is joined to
  bytes, and Python 3 refuses to join a \<^verbatim>\<open>str\<close> to bytes: the field whose value is a
  \<^verbatim>\<open>str\<close> stops the encoding with \<open>TypeError_concat\<close>, before any later field is
  looked at.
\<close>

fun encode_fields :: "string \<Rightarrow> (string \<rightharpoonup> bytes) \<Rightarrow> field list \<Rightarrow> codec_error + bytes" where
  "encode_fields command_name field_overrides [] = Inr []"
| "encode_fields command_name field_overrides (f # fs) =
     (case resolve_field command_name field_overrides f of
        Inl e \<Rightarrow> Inl e
      | Inr (Str t) \<Rightarrow> Inl (TypeError_concat (name f))
      | Inr (Bytes v) \<Rightarrow>
          (case encode_fields command_name field_overrides fs of
             Inl e \<Rightarrow> Inl e
           | Inr rest \<Rightarrow> Inr (v @ rest)))"

text \<open>Modelled from the spec: \<open>encode(command_name, field_overrides)\<close> of section 4.2; the
  encoder of \<^verbatim>\<open>xbee.base\<close> is missing. A name that is not a key of the registry is the
  caller's error.
\<close>

definition encode :: "string \<Rightarrow> (string \<rightharpoonup> bytes) \<Rightarrow> codec_error + bytes" where
  "encode command_name field_overrides =
     (case map_of api_commands command_name of
        None \<Rightarrow> Inl UnsupportedCommand
      | Some schema \<Rightarrow> encode_fields command_name field_overrides schema)"

text \<open>Modelled from the spec: the re-splitting of section 8 (round trip), which cuts a byte
  sequence by the declared lengths of a schema in order; no function of the sources
  does this. A fixed length takes that many bytes, a field without length takes all that
  is left, a null-terminated field takes the bytes before the first zero byte and drops
  that byte.
\<close>

fun resplit :: "field list \<Rightarrow> bytes \<Rightarrow> (string \<times> bytes) list" where
  "resplit [] b = []"
| "resplit (f # fs) b =
     (case len f of
        LenInt n \<Rightarrow> (name f, take n b) # resplit fs (drop n b)
      | LenNone \<Rightarrow> (name f, b) # resplit fs []
      | LenNullTerminated \<Rightarrow>
          (name f, takeWhile (\<lambda>c. c \<noteq> 0) b) # resplit fs (drop 1 (dropWhile (\<lambda>c. c \<noteq> 0) b)))"

text \<open>Modelled from the spec: the decoder's walk over the fields of a schema (section 4.3);
  the decoder of \<^verbatim>\<open>xbee.base\<close> is missing. The walk returns the fields read, in order,
  and the bytes not consumed. A fixed count fails on fewer bytes than declared; a
  null-terminated field is the bytes strictly before the first zero byte, and the zero
  byte is consumed and belongs to no field; a field without length is every byte left.
\<close>

fun walk_fields :: "field list \<Rightarrow> bytes \<Rightarrow> codec_error + (string \<times> bytes) list \<times> bytes" where
  "walk_fields [] b = Inr ([], b)"
| "walk_fields (f # fs) b =
     (case len f of
        LenInt n \<Rightarrow>
          if length b < n then Inl TruncatedFrame
          else (case walk_fields fs (drop n b) of
                  Inl e \<Rightarrow> Inl e
                | Inr (vs, r) \<Rightarrow> Inr ((name f, take n b) # vs, r))
      | LenNullTerminated \<Rightarrow>
          if 0 \<notin> set b then Inl UnterminatedField
          else (case walk_fields fs (drop 1 (dropWhile (\<lambda>c. c \<noteq> 0) b)) of
                  Inl e \<Rightarrow> Inl e
                | Inr (vs, r) \<Rightarrow> Inr ((name f, takeWhile (\<lambda>c. c \<noteq> 0) b) # vs, r))
      | LenNone \<Rightarrow>
          (case walk_fields fs [] of
             Inl e \<Rightarrow> Inl e
           | Inr (vs, r) \<Rightarrow> Inr ((name f, b) # vs, r)))"

text \<open>Modelled from the spec: the decoded record of section 3, for the missing decoder of
  \<^verbatim>\<open>xbee.base\<close>. A decoded field is raw bytes or, after a parsing rule has built one,
  a nested record; the record carries the name of its schema as its type.
\<close>

datatype field_value = Raw bytes | Structured result

record decoded_record =
  record_type :: string
  record_fields :: "(string \<times> field_value) list"

text \<open>Modelled from the spec: the application of the parsing rules of a schema (sections 4.3
  and 4.4); the decoder of \<^verbatim>\<open>xbee.base\<close> is missing. A rule is run when its field was
  decoded. The rule's function is the one of the sources. When it returns nothing the
  field keeps its raw bytes; when it returns a record the record replaces the field;
  its length error is \<open>MalformedSubRecord\<close> with the expected and the actual length.
\<close>

text \<open>Modelled from the spec: the error a failing parsing rule becomes (section 7); the
  decoder of \<^verbatim>\<open>xbee.base\<close> is missing.
\<close>

fun sub_record_error :: "error \<Rightarrow> codec_error" where
  "sub_record_error (ValueError_ND_length expected actual) = MalformedSubRecord expected actual"
| "sub_record_error (KeyError k) = SubRecordKeyError k"

fun apply_rules ::
  "packet_info \<Rightarrow> (string \<times> hook) list \<Rightarrow> (string \<times> field_value) list \<Rightarrow>
     (codec_error, (string \<times> field_value) list) outcome" where
  "apply_rules info [] fs = Returns fs"
| "apply_rules info ((field_name, h) # rules) fs =
     (if map_of fs field_name = None then apply_rules info rules fs
      else (case call_hook h info of
              Diverges \<Rightarrow> Diverges
            | Raises e \<Rightarrow> Raises (sub_record_error e)
            | Returns None \<Rightarrow> apply_rules info rules fs
            | Returns (Some r) \<Rightarrow>
                apply_rules info rules
                  (map (\<lambda>(k, v). if k = field_name then (k, Structured r) else (k, v)) fs)))"

text \<open>Modelled from the spec: \<open>decode(raw_bytes)\<close> of section 4.3; the decoder of
  \<^verbatim>\<open>xbee.base\<close> is missing. The leading byte selects the schema; the fields are walked
  over the bytes after it; bytes left over are an error; then the rules of the schema's
  own \<^verbatim>\<open>'parsing'\<close> key are applied to the record, whose type is the schema's name.
\<close>

definition decode :: "bytes \<Rightarrow> (codec_error, decoded_record) outcome" where
  "decode raw_bytes =
     (case raw_bytes of
        [] \<Rightarrow> Raises UnknownResponseType
      | type_id # payload \<Rightarrow>
          (case map_of api_responses (BytesKey [type_id]) of
             Some (Packet p) \<Rightarrow>
               (case walk_fields (structure_fields p) payload of
                  Inl e \<Rightarrow> Raises e
                | Inr (vs, r) \<Rightarrow>
                    if r \<noteq> [] then Raises TrailingData
                    else (case apply_rules \<lparr>id_name = packet_name p, item = map_of vs\<rparr>
                                 (case parsing p of None \<Rightarrow> [] | Some rules \<Rightarrow> rules)
                                 (map (\<lambda>(k, v). (k, Raw v)) vs) of
                            Diverges \<Rightarrow> Diverges
                          | Raises e \<Rightarrow> Raises e
                          | Returns fs \<Rightarrow>
                              Returns \<lparr>record_type = packet_name p, record_fields = fs\<rparr>))
           | _ \<Rightarrow> Raises UnknownResponseType))"

section \<open>The parsing rule on a store\<close>

text \<open>
  To speak of what a call leaves unchanged, the objects the method can reach are placed
  in a store. Every dictionary is an object at an address, the record handed to the
  rule as much as the dictionary the rule builds, and \<^verbatim>\<open>packet_info\<close> and
  \<^verbatim>\<open>result\<close> are addresses. A dictionary maps strings to values, text or bytes. The
  class with its attributes \<^verbatim>\<open>api_commands\<close> and \<^verbatim>\<open>api_responses\<close> is an object of
  the store too. A new object takes the next free address.
\<close>

type_synonym addr = nat

type_synonym dict = "string \<rightharpoonup> pyval"

datatype object = Dict dict | Class "(string \<times> field list) list" "(key \<times> entry) list"

record state =
  heap :: "addr \<rightharpoonup> object"
  next_addr :: addr

text \<open>
  \<open>NotADict\<close> answers the subscription of an address that holds no dictionary.
\<close>

datatype st_error = Py error | NotADict

text \<open>
  Every write goes through \<open>write_object\<close>, which replaces the object at an address,
  whatever it is. \<^verbatim>\<open>d[k]\<close> reads and \<^verbatim>\<open>d[k] = v\<close> writes any dictionary of the store,
  the record handed to the rule included; \<^verbatim>\<open>result = {}\<close> of line 147 places an empty
  dictionary at the next free address.
\<close>

definition write_object :: "addr \<Rightarrow> object \<Rightarrow> state \<Rightarrow> state" where
  "write_object a obj s = s\<lparr>heap := (heap s)(a \<mapsto> obj)\<rparr>"

definition getitem :: "state \<Rightarrow> addr \<Rightarrow> string \<Rightarrow> st_error + pyval" where
  "getitem s a k =
     (case heap s a of
        Some (Dict d) \<Rightarrow> (case d k of None \<Rightarrow> Inl (Py (KeyError k)) | Some v \<Rightarrow> Inr v)
      | _ \<Rightarrow> Inl NotADict)"

definition setitem :: "state \<Rightarrow> addr \<Rightarrow> string \<Rightarrow> pyval \<Rightarrow> st_error + state" where
  "setitem s a k v =
     (case heap s a of
        Some (Dict d) \<Rightarrow> Inr (write_object a (Dict (d(k \<mapsto> v))) s)
      | _ \<Rightarrow> Inl NotADict)"

definition new_dict :: "state \<Rightarrow> addr \<times> state" where
  "new_dict s =
     (next_addr s, (write_object (next_addr s) (Dict Map.empty) s)\<lparr>next_addr := next_addr s + 1\<rparr>)"

text \<open>
  The operations of the method on a value that is text or bytes. A slice of text is
  text and a slice of bytes is bytes; \<^verbatim>\<open>len\<close> counts code points or bytes. The test
  \<^verbatim>\<open>v.lower() == b'fn'\<close> of line 146 is false for every text, whose lowering is text
  again.
\<close>

definition slice_val :: "pyval \<Rightarrow> nat \<Rightarrow> nat \<Rightarrow> pyval" where
  "slice_val v i j =
     (case v of Bytes b \<Rightarrow> Bytes (slice b i j) | Str t \<Rightarrow> Str (take (j - i) (drop i t)))"

definition len_val :: "pyval \<Rightarrow> nat" where
  "len_val v = (case v of Bytes b \<Rightarrow> length b | Str t \<Rightarrow> length t)"

definition lower_is_fn :: "pyval \<Rightarrow> bool" where
  "lower_is_fn v = (case v of Bytes b \<Rightarrow> lower b = b_fn | Str t \<Rightarrow> False)"

text \<open>
  One assignment \<^verbatim>\<open>result[k] = packet_info['parameter'][i:j]\<close>, and a sequence of such
  assignments; a failing assignment leaves the state it started in.
\<close>

definition store_slice :: "addr \<Rightarrow> addr \<Rightarrow> string \<Rightarrow> nat \<Rightarrow> nat \<Rightarrow> state \<Rightarrow> st_error + state" where
  "store_slice packet_info result k i j s =
     (case getitem s packet_info ''parameter'' of
        Inl e \<Rightarrow> Inl e
      | Inr parameter \<Rightarrow> setitem s result k (slice_val parameter i j))"

fun store_slices ::
  "addr \<Rightarrow> addr \<Rightarrow> (string \<times> nat \<times> nat) list \<Rightarrow> state \<Rightarrow> st_error \<times> state + state" where
  "store_slices packet_info result [] s = Inr s"
| "store_slices packet_info result ((k, i, j) # rest) s =
     (case store_slice packet_info result k i j s of
        Inl e \<Rightarrow> Inl (e, s)
      | Inr s' \<Rightarrow> store_slices packet_info result rest s')"

text \<open>
  Line 146, lines 152 to 154, lines 174 and 175 and lines 163 to 172, on the store. The
  \<^verbatim>\<open>elif\<close> of line 168 reads the parameter in the state the \<^verbatim>\<open>if\<close> of line 163 read
  it in, so one read serves both.
\<close>

definition is_FN_response_st :: "state \<Rightarrow> addr \<Rightarrow> st_error + bool" where
  "is_FN_response_st s packet_info =
     (case getitem s packet_info ''id'' of
        Inl e \<Rightarrow> Inl e
      | Inr n \<Rightarrow>
          (if n \<notin> {Str ''at_response'', Str ''at_remote_response''} then Inr False
           else (case getitem s packet_info ''command'' of
             Inl e \<Rightarrow> Inl e
           | Inr command \<Rightarrow>
               (if \<not> lower_is_fn command then Inr False
                else (case getitem s packet_info ''status'' of
                  Inl e \<Rightarrow> Inl e
                | Inr status \<Rightarrow> Inr (status = Bytes b_nul))))))"

partial_function (option) find_null_terminator_st ::
  "state \<Rightarrow> addr \<Rightarrow> nat \<Rightarrow> (st_error + nat) option" where
  "find_null_terminator_st s packet_info null_terminator_index =
     (case getitem s packet_info ''parameter'' of
        Inl e \<Rightarrow> Some (Inl e)
      | Inr parameter \<Rightarrow>
          (if slice_val parameter null_terminator_index (null_terminator_index + 1) \<noteq> Bytes b_nul
           then find_null_terminator_st s packet_info (null_terminator_index + 1)
           else Some (Inr null_terminator_index)))"

definition length_check ::
  "addr \<Rightarrow> addr \<Rightarrow> nat \<Rightarrow> state \<Rightarrow> (st_error \<times> state, addr option \<times> state) outcome" where
  "length_check packet_info result null_terminator_index s =
     (case getitem s packet_info ''parameter'' of
        Inl e \<Rightarrow> Raises (e, s)
      | Inr parameter \<Rightarrow>
          if null_terminator_index + 9 \<noteq> len_val parameter
          then Raises (Py (ValueError_ND_length (len_val parameter) (null_terminator_index + 9)), s)
          else Returns (Some result, s))"

definition optional_fields_st ::
  "addr \<Rightarrow> addr \<Rightarrow> nat \<Rightarrow> state \<Rightarrow> (st_error \<times> state, addr option \<times> state) outcome" where
  "optional_fields_st packet_info result null_terminator_index s =
     (case getitem s packet_info ''parameter'' of
        Inl e \<Rightarrow> Raises (e, s)
      | Inr parameter \<Rightarrow>
          if int (len_val parameter) - int null_terminator_index - 9 = 4 then
            (case store_slices packet_info result
                    [(''device_type_id'', null_terminator_index + 9, null_terminator_index + 13)] s of
               Inl es \<Rightarrow> Raises es
             | Inr s' \<Rightarrow> length_check packet_info result (null_terminator_index + 4) s')
          else if int (len_val parameter) - int null_terminator_index - 9 = 5 then
            (case store_slices packet_info result
                    [(''device_type_id'', null_terminator_index + 9, null_terminator_index + 13),
                     (''rssi'', null_terminator_index + 13, null_terminator_index + 14)] s of
               Inl es \<Rightarrow> Raises es
             | Inr s' \<Rightarrow> length_check packet_info result (null_terminator_index + 5) s')
          else length_check packet_info result null_terminator_index s)"

text \<open>
  The method, statement by statement. A run that ends gives the final state with the
  value returned (the address of the new dictionary, or \<^verbatim>\<open>None\<close>) or with the
  exception raised.
\<close>

definition parse_FN_at_response_st ::
  "addr \<Rightarrow> state \<Rightarrow> (st_error \<times> state, addr option \<times> state) outcome" where
  "parse_FN_at_response_st packet_info s =
     (case is_FN_response_st s packet_info of
        Inl e \<Rightarrow> Raises (e, s)
      | Inr False \<Rightarrow> Returns (None, s)
      | Inr True \<Rightarrow>
          (case new_dict s of
             (result, s1) \<Rightarrow>
               (case store_slices packet_info result
                       [(''source_addr'', 0, 2), (''source_addr_long'', 2, 10)] s1 of
                  Inl es \<Rightarrow> Raises es
                | Inr s2 \<Rightarrow>
                    (case find_null_terminator_st s2 packet_info 10 of
                       None \<Rightarrow> Diverges
                     | Some (Inl e) \<Rightarrow> Raises (e, s2)
                     | Some (Inr null_terminator_index) \<Rightarrow>
                         (case store_slices packet_info result
                                 [(''node_identifier'', 10, null_terminator_index),
                                  (''parent_address'', null_terminator_index + 1,
                                     null_terminator_index + 3),
                                  (''device_type'', null_terminator_index + 3,
                                     null_terminator_index + 4),
                                  (''status'', null_terminator_index + 4, null_terminator_index + 5),
                                  (''profile_id'', null_terminator_index + 5,
                                     null_terminator_index + 7),
                                  (''manufacturer'', null_terminator_index + 7,
                                     null_terminator_index + 9)] s2 of
                            Inl es \<Rightarrow> Raises es
                          | Inr s3 \<Rightarrow>
                              optional_fields_st packet_info result null_terminator_index s3)))))"

text \<open>
  What the caller gets from a run: the contents of the dictionary returned instead of
  its address. The state a run ends in, when it ends.
\<close>

fun observe ::
  "(st_error \<times> state, addr option \<times> state) outcome \<Rightarrow> (st_error, dict option) outcome" where
  "observe Diverges = Diverges"
| "observe (Raises (e, s)) = Raises e"
| "observe (Returns (None, s)) = Returns None"
| "observe (Returns (Some r, s)) =
     (case heap s r of Some (Dict d) \<Rightarrow> Returns (Some d) | _ \<Rightarrow> Raises NotADict)"

fun final_state :: "(st_error \<times> state, addr option \<times> state) outcome \<Rightarrow> state option" where
  "final_state Diverges = None"
| "final_state (Raises (e, s)) = Some s"
| "final_state (Returns (v, s)) = Some s"

text \<open>
  For the proofs: the state after \<^verbatim>\<open>result = {}\<close> and some assignments to
  \<^verbatim>\<open>result\<close>, which then holds \<open>d\<close>; the dictionary a sequence of assignments builds
  from the parameter \<open>v\<close>; and what the method computes, as a function of the contents
  of the record alone: the test, the scan (which never ends on text, no slice of text
  being equal to \<^verbatim>\<open>b'\x00'\<close>), the dictionary built with the advanced index, and the
  outcome.
\<close>

definition with_dict :: "state \<Rightarrow> dict \<Rightarrow> state" where
  "with_dict s d = s\<lparr>heap := (heap s)(next_addr s \<mapsto> Dict d), next_addr := next_addr s + 1\<rparr>"

fun put_slices :: "pyval \<Rightarrow> (string \<times> nat \<times> nat) list \<Rightarrow> dict \<Rightarrow> dict" where
  "put_slices v [] d = d"
| "put_slices v ((k, i, j) # ks) d = put_slices v ks (d(k \<mapsto> slice_val v i j))"

definition is_FN_response_dict :: "dict \<Rightarrow> error + bool" where
  "is_FN_response_dict d =
     (case d ''id'' of
        None \<Rightarrow> Inl (KeyError ''id'')
      | Some n \<Rightarrow>
          (if n \<notin> {Str ''at_response'', Str ''at_remote_response''} then Inr False
           else (case d ''command'' of
             None \<Rightarrow> Inl (KeyError ''command'')
           | Some command \<Rightarrow>
               (if \<not> lower_is_fn command then Inr False
                else (case d ''status'' of
                  None \<Rightarrow> Inl (KeyError ''status'')
                | Some status \<Rightarrow> Inr (status = Bytes b_nul))))))"

definition scan_val :: "pyval \<Rightarrow> nat \<Rightarrow> nat option" where
  "scan_val v i = (case v of Bytes P \<Rightarrow> find_null_terminator P i | Str t \<Rightarrow> None)"

definition built_dict :: "pyval \<Rightarrow> nat \<Rightarrow> dict \<times> nat" where
  "built_dict v t =
     (let fixed = put_slices v
            [(''source_addr'', 0, 2), (''source_addr_long'', 2, 10),
             (''node_identifier'', 10, t), (''parent_address'', t + 1, t + 3),
             (''device_type'', t + 3, t + 4), (''status'', t + 4, t + 5),
             (''profile_id'', t + 5, t + 7), (''manufacturer'', t + 7, t + 9)] Map.empty
      in if int (len_val v) - int t - 9 = 4 then
           (put_slices v [(''device_type_id'', t + 9, t + 13)] fixed, t + 4)
         else if int (len_val v) - int t - 9 = 5 then
           (put_slices v [(''device_type_id'', t + 9, t + 13), (''rssi'', t + 13, t + 14)] fixed,
            t + 5)
         else (fixed, t))"

definition outcome_of_dict :: "dict \<Rightarrow> (st_error, dict option) outcome" where
  "outcome_of_dict d =
    (case is_FN_response_dict d of
       Inl e \<Rightarrow> Raises (Py e)
     | Inr False \<Rightarrow> Returns None
     | Inr True \<Rightarrow>
         (case d ''parameter'' of
            None \<Rightarrow> Raises (Py (KeyError ''parameter''))
          | Some v \<Rightarrow>
              (case scan_val v 10 of
                 None \<Rightarrow> Diverges
               | Some t \<Rightarrow>
                   (case built_dict v t of
                      (res, t') \<Rightarrow>
                        if t' + 9 \<noteq> len_val v
                        then Raises (Py (ValueError_ND_length (len_val v) (t' + 9)))
                        else Returns (Some res)))))"

text \<open>
  The dictionary of a record of the first model: the name under \<^verbatim>\<open>'id'\<close> as text, the
  fields as bytes.
\<close>

definition dict_of :: "packet_info \<Rightarrow> dict" where
  "dict_of i = (\<lambda>k. if k = ''id'' then Some (Str (id_name i)) else map_option Bytes (item i k))"

section \<open>Concrete records\<close>

text \<open>
  A node-discovery payload with the short address 0x1234, an eight-byte long address, the
  node identifier \<^verbatim>\<open>AB\<close>, its terminator at index 12 and the eight bytes of the five
  fixed fields after it: 21 bytes, nothing after the manufacturer.
\<close>

definition nd_payload :: bytes where
  "nd_payload = [0x12, 0x34, 0x00, 0x13, 0xA2, 0x00, 0x40, 0x52, 0x2B, 0xAA,
                 0x41, 0x42, 0x00, 0xFF, 0xFE, 0x01, 0x00, 0xC1, 0x05, 0x10, 0x1E]"

text \<open>
  A decoded AT response as the decoder hands it to a parsing rule: the name of the
  response and the four fields of the schema.
\<close>

definition response_record :: "string \<Rightarrow> bytes \<Rightarrow> bytes \<Rightarrow> bytes \<Rightarrow> packet_info" where
  "response_record n command status parameter =
     \<lparr>id_name = n,
      item = [''frame_id'' \<mapsto> [0x01], ''command'' \<mapsto> command, ''status'' \<mapsto> status,
              ''parameter'' \<mapsto> parameter]\<rparr>"

text \<open>
  The shape every schema of \<^verbatim>\<open>api_commands\<close> has: fixed lengths, then at most one
  field without length, which is the last; no null-terminated field.
\<close>

fun fixed_then_rest :: "field list \<Rightarrow> bool" where
  "fixed_then_rest [] = True"
| "fixed_then_rest [f] = (len f \<noteq> LenNullTerminated)"
| "fixed_then_rest (f # fs) = ((\<exists>n. len f = LenInt n) \<and> fixed_then_rest fs)"

text \<open>Overrides for every field of \<^verbatim>\<open>tx\<close>, each of its declared length.\<close>

definition tx_overrides :: "string \<rightharpoonup> bytes" where
  "tx_overrides =
     [''id'' \<mapsto> [0x10], ''frame_id'' \<mapsto> [0x07],
      ''dest_addr'' \<mapsto> [0x00, 0x13, 0xA2, 0x00, 0x40, 0x52, 0x2B, 0xAA],
      ''reserved'' \<mapsto> [0xFF, 0xFE], ''broadcast_radius'' \<mapsto> [0x02], ''options'' \<mapsto> [0x01],
      ''data'' \<mapsto> [0x68, 0x69, 0x21]]"

text \<open>
  A successful remote AT response to \<^verbatim>\<open>FN\<close> as a record, and the frames of a direct
  and of a remote response that carry the same payload.
\<close>

definition remote_record :: packet_info where
  "remote_record =
     \<lparr>id_name = ''remote_at_response'',
      item = [''frame_id'' \<mapsto> [0x01],
              ''source_addr'' \<mapsto> [0x00, 0x13, 0xA2, 0x00, 0x40, 0x52, 0x2B, 0xAA],
              ''reserved'' \<mapsto> [0xFF, 0xFE], ''command'' \<mapsto> b_FN, ''status'' \<mapsto> b_nul,
              ''parameter'' \<mapsto> nd_payload]\<rparr>"

definition direct_frame :: bytes where
  "direct_frame = [0x88] @ [0x01] @ b_FN @ b_nul @ nd_payload"

definition remote_frame :: bytes where
  "remote_frame = [0x97] @ [0x01] @ [0x00, 0x13, 0xA2, 0x00, 0x40, 0x52, 0x2B, 0xAA] @
                  [0xFF, 0xFE] @ b_FN @ b_nul @ nd_payload"

text \<open>
  A successful direct AT response to \<^verbatim>\<open>FN\<close> as a dictionary, and a state that holds it
  at address 0 and the class with its tables at address 1.
\<close>

definition at_response_dict :: dict where
  "at_response_dict =
     [''id'' \<mapsto> Str ''at_response'', ''frame_id'' \<mapsto> Bytes [0x01], ''command'' \<mapsto> Bytes b_FN,
      ''status'' \<mapsto> Bytes b_nul, ''parameter'' \<mapsto> Bytes nd_payload]"

definition initial_state :: state where
  "initial_state =
     \<lparr>heap = [0 \<mapsto> Dict at_response_dict, 1 \<mapsto> Class api_commands api_responses],
      next_addr = 2\<rparr>"

section \<open>The terminator scan\<close>

lemma slice_one_eq_nul:
  "slice P i (i + 1) = b_nul \<longleftrightarrow> i < length P \<and> P ! i = 0"
proof (cases "i < length P")
  case True
  then have "drop i P = P ! i # drop (Suc i) P" by (simp add: Cons_nth_drop_Suc)
  then show ?thesis using True by (simp add: slice_def b_nul_def)
next
  case False
  then show ?thesis by (simp add: slice_def b_nul_def)
qed

lemma slice_Suc_eq_nul:
  "slice P i (Suc i) = b_nul \<longleftrightarrow> i < length P \<and> P ! i = 0"
  using slice_one_eq_nul [of P i] by simp

lemma find_null_terminator_Some:
  assumes "find_null_terminator P i = Some t"
  shows "i \<le> t \<and> t < length P \<and> P ! t = 0 \<and> (\<forall>j. i \<le> j \<and> j < t \<longrightarrow> P ! j \<noteq> 0)"
proof -
  let ?Q = "\<lambda>P i t. i \<le> t \<and> t < length P \<and> P ! t = 0 \<and> (\<forall>j. i \<le> j \<and> j < t \<longrightarrow> P ! j \<noteq> (0::byte))"
  have "?Q P i t"
  proof (rule find_null_terminator.raw_induct [where P = ?Q, OF _ assms])
    fix f :: "bytes \<Rightarrow> nat \<Rightarrow> nat option" and P i t
    assume ih: "\<And>P i t. f P i = Some t \<Longrightarrow> ?Q P i t"
      and body: "(if slice P i (i + 1) \<noteq> b_nul then f P (i + 1) else Some i) = Some t"
    show "?Q P i t"
    proof (cases "slice P i (i + 1) = b_nul")
      case True
      with body have "t = i" by simp
      with True show ?thesis by (auto simp: slice_Suc_eq_nul)
    next
      case False
      with body have "f P (i + 1) = Some t" by simp
      from ih [OF this] have r: "i + 1 \<le> t" "t < length P" "P ! t = 0"
        "\<forall>j. i + 1 \<le> j \<and> j < t \<longrightarrow> P ! j \<noteq> 0" by auto
      have "P ! j \<noteq> 0" if "i \<le> j" "j < t" for j
      proof (cases "j = i")
        case True
        with False r(2) that show ?thesis by (simp add: slice_Suc_eq_nul)
      next
        case False
        with that have "i + 1 \<le> j" by simp
        with r(4) that show ?thesis by blast
      qed
      with r show ?thesis by simp
    qed
  qed
  then show ?thesis by simp
qed

lemma find_null_terminator_first:
  "i \<le> t \<Longrightarrow> t < length P \<Longrightarrow> P ! t = 0 \<Longrightarrow> (\<forall>j. i \<le> j \<and> j < t \<longrightarrow> P ! j \<noteq> 0) \<Longrightarrow>
     find_null_terminator P i = Some t"
proof (induction "t - i" arbitrary: i)
  case 0
  then have "i = t" by simp
  with 0 show ?case by (subst find_null_terminator.simps) (simp add: slice_Suc_eq_nul)
next
  case (Suc n)
  then have lt: "i < t" by simp
  with Suc.prems have ne: "slice P i (i + 1) \<noteq> b_nul" by (simp add: slice_Suc_eq_nul)
  have "n = t - (i + 1)" using Suc.hyps(2) by simp
  moreover have "i + 1 \<le> t" using lt by simp
  moreover have "\<forall>j. i + 1 \<le> j \<and> j < t \<longrightarrow> P ! j \<noteq> 0" using Suc.prems(4) by simp
  ultimately have "find_null_terminator P (i + 1) = Some t"
    using Suc.hyps(1) Suc.prems(2,3) by blast
  with ne show ?case by (subst find_null_terminator.simps) simp
qed

lemma find_null_terminator_None:
  assumes "0 \<notin> set (drop i P)"
  shows "find_null_terminator P i = None"
proof (rule ccontr)
  assume "find_null_terminator P i \<noteq> None"
  then obtain t where "find_null_terminator P i = Some t" by auto
  from find_null_terminator_Some[OF this] have t: "i \<le> t" "t < length P" "P ! t = 0" by auto
  then have "drop i P ! (t - i) = P ! t" "t - i < length (drop i P)" by simp_all
  then have "P ! t \<in> set (drop i P)" by (metis nth_mem)
  with t(3) assms show False by simp
qed


lemma no_zero_slice_iff:
  assumes "t \<le> length P"
  shows "0 \<notin> set (slice P i t) \<longleftrightarrow> (\<forall>j. i \<le> j \<and> j < t \<longrightarrow> P ! j \<noteq> 0)"
proof
  assume nz: "0 \<notin> set (slice P i t)"
  show "\<forall>j. i \<le> j \<and> j < t \<longrightarrow> P ! j \<noteq> 0"
  proof (intro allI impI)
    fix j assume "i \<le> j \<and> j < t"
    then have j: "i \<le> j" "j < t" by simp_all
    then have "j - i < length (slice P i t)" using assms by (simp add: slice_def)
    moreover have "slice P i t ! (j - i) = P ! j" using j assms by (simp add: slice_def)
    ultimately have "P ! j \<in> set (slice P i t)" by (metis nth_mem)
    with nz show "P ! j \<noteq> 0" by auto
  qed
next
  assume a: "\<forall>j. i \<le> j \<and> j < t \<longrightarrow> P ! j \<noteq> 0"
  show "0 \<notin> set (slice P i t)"
  proof
    assume "0 \<in> set (slice P i t)"
    then obtain k where k: "k < length (slice P i t)" "slice P i t ! k = 0"
      by (auto simp: in_set_conv_nth)
    then have "k < t - i" by (simp add: slice_def)
    then have "i \<le> i + k \<and> i + k < t" by simp
    moreover have "slice P i t ! k = P ! (i + k)" using k(1) assms by (simp add: slice_def)
    ultimately show False using a k(2) by metis
  qed
qed

lemma terminator_at_iff:
  "terminator_at P t \<longleftrightarrow> find_null_terminator P 10 = Some t"
proof
  assume ta: "terminator_at P t"
  then have t: "10 \<le> t" "t < length P" "P ! t = 0" "0 \<notin> set (slice P 10 t)"
    by (simp_all add: terminator_at_def slice_Suc_eq_nul)
  then have "\<forall>j. 10 \<le> j \<and> j < t \<longrightarrow> P ! j \<noteq> 0"
    using no_zero_slice_iff [of t P 10] by simp
  with t show "find_null_terminator P 10 = Some t"
    by (intro find_null_terminator_first) simp_all
next
  assume "find_null_terminator P 10 = Some t"
  from find_null_terminator_Some [OF this]
  have t: "10 \<le> t" "t < length P" "P ! t = 0" "\<forall>j. 10 \<le> j \<and> j < t \<longrightarrow> P ! j \<noteq> 0"
    by auto
  then have "0 \<notin> set (slice P 10 t)" using no_zero_slice_iff [of t P 10] by simp
  with t show "terminator_at P t" by (simp add: terminator_at_def slice_Suc_eq_nul)
qed

lemma parse_parameter_at:
  assumes "terminator_at P t"
  shows "parse_parameter P =
    (if length P = t + 13 then
       Returns (Some ((fixed_fields P t)(''device_type_id'' \<mapsto> slice P (t + 9) (t + 13))))
     else if length P = t + 14 then
       Returns (Some ((fixed_fields P t)(''device_type_id'' \<mapsto> slice P (t + 9) (t + 13),
                                        ''rssi'' \<mapsto> slice P (t + 13) (t + 14))))
     else if length P = t + 9 then Returns (Some (fixed_fields P t))
     else Raises (ValueError_ND_length (length P) (t + 9)))"
proof -
  have f: "find_null_terminator P 10 = Some t" using assms by (simp add: terminator_at_iff)
  have a: "int (length P) - int t - 9 = 4 \<longleftrightarrow> length P = t + 13" by linarith
  have b: "int (length P) - int t - 9 = 5 \<longleftrightarrow> length P = t + 14" by linarith
  show ?thesis
    unfolding parse_parameter_def f optional_fields_def a b by simp
qed

lemma parse_parameter_no_terminator:
  assumes "0 \<notin> set (drop 10 P)"
  shows "parse_parameter P = Diverges"
  using find_null_terminator_None [OF assms] by (simp add: parse_parameter_def)

lemma parse_FN_at_response_triggered:
  assumes "id_name packet_info \<in> {''at_response'', ''at_remote_response''}"
    and "item packet_info ''command'' = Some command"
    and "lower command = b_fn"
    and "item packet_info ''status'' = Some b_nul"
    and "item packet_info ''parameter'' = Some P"
  shows "parse_FN_at_response packet_info = parse_parameter P"
  using assms by (simp add: parse_FN_at_response_def is_FN_response_def)

section \<open>The parsing rule on a record\<close>

lemma response_record_simps:
  "id_name (response_record n c s P) = n"
  "item (response_record n c s P) ''command'' = Some c"
  "item (response_record n c s P) ''status'' = Some s"
  "item (response_record n c s P) ''parameter'' = Some P"
  by (simp_all add: response_record_def)

lemma lower_FN: "lower b_FN = b_fn" "lower b_fn = b_fn" "lower b_ND \<noteq> b_fn"
  by (simp_all add: lower_def lower_byte_def b_FN_def b_fn_def b_ND_def)

lemma nd_payload_terminator:
  "terminator_at nd_payload 12" "terminator_at (nd_payload @ [0x00, 0x03, 0x00, 0x00]) 12"
  "terminator_at (nd_payload @ [0x00, 0x03, 0x00, 0x00, 0x2A]) 12"
  "terminator_at (nd_payload @ [0x00, 0x03, 0x00, 0x00, 0x2A, 0x07]) 12"
  by (simp_all add: terminator_at_def nd_payload_def slice_def b_nul_def)

lemma parse_FN_at_response_not_FN:
  "id_name packet_info \<notin> {''at_response'', ''at_remote_response''} \<Longrightarrow>
     parse_FN_at_response packet_info = Returns None"
  "item packet_info ''command'' = Some command \<Longrightarrow> lower command \<noteq> b_fn \<Longrightarrow>
     parse_FN_at_response packet_info = Returns None"
  by (simp_all add: parse_FN_at_response_def is_FN_response_def)

lemma parse_FN_at_response_Some:
  assumes "parse_FN_at_response packet_info = Returns (Some r)"
    and "item packet_info ''parameter'' = Some P"
  shows "parse_parameter P = Returns (Some r)"
  using assms
  by (auto simp: parse_FN_at_response_def split: sum.splits bool.splits option.splits)

lemma parse_parameter_Some:
  assumes "parse_parameter P = Returns (Some r)"
  shows "\<exists>t. terminator_at P t \<and>
           (length P = t + 9 \<or> length P = t + 13 \<or> length P = t + 14) \<and>
           (\<forall>k. k \<noteq> ''device_type_id'' \<and> k \<noteq> ''rssi'' \<longrightarrow> r k = fixed_fields P t k)"
proof -
  from assms obtain t where f: "find_null_terminator P 10 = Some t"
    by (auto simp: parse_parameter_def split: option.splits)
  then have t: "terminator_at P t" by (simp add: terminator_at_iff)
  from assms have "length P = t + 9 \<or> length P = t + 13 \<or> length P = t + 14"
    unfolding parse_parameter_at [OF t] by (auto split: if_splits)
  moreover from assms have "r k = fixed_fields P t k"
    if "k \<noteq> ''device_type_id''" "k \<noteq> ''rssi''" for k
    unfolding parse_parameter_at [OF t] using that by (auto split: if_splits)
  ultimately show ?thesis using t by blast
qed

lemma fixed_fields_no_optional:
  "fixed_fields P t ''device_type_id'' = None" "fixed_fields P t ''rssi'' = None"
  by (simp_all add: fixed_fields_def)

lemma slice_last:
  assumes "length P = n + 1"
  shows "slice P n (n + 1) = [last P]"
proof -
  from assms have "P \<noteq> []" by auto
  then have "P = butlast P @ [last P]" by simp
  moreover have "length (butlast P) = n" using assms by simp
  ultimately have "drop n P = [last P]" by (metis append_eq_conv_conj)
  then show ?thesis by (simp add: slice_def)
qed

lemma slice_append:
  assumes "i \<le> j" "j \<le> k"
  shows "slice P i j @ slice P j k = slice P i k"
proof -
  have "k - i = (j - i) + (k - j)" using assms by simp
  moreover have "drop (j - i) (drop i P) = drop j P" using assms by simp
  ultimately show ?thesis by (simp add: slice_def take_add)
qed

lemma fixed_fields_lookup:
  "fixed_fields P t ''source_addr'' = Some (slice P 0 2)"
  "fixed_fields P t ''source_addr_long'' = Some (slice P 2 10)"
  "fixed_fields P t ''node_identifier'' = Some (slice P 10 t)"
  "fixed_fields P t ''parent_address'' = Some (slice P (t + 1) (t + 3))"
  "fixed_fields P t ''device_type'' = Some (slice P (t + 3) (t + 4))"
  "fixed_fields P t ''status'' = Some (slice P (t + 4) (t + 5))"
  "fixed_fields P t ''profile_id'' = Some (slice P (t + 5) (t + 7))"
  "fixed_fields P t ''manufacturer'' = Some (slice P (t + 7) (t + 9))"
  by (simp_all add: fixed_fields_def)

lemma length_slice: "j \<le> length P \<Longrightarrow> length (slice P i j) = j - i"
  by (simp add: slice_def)

lemma fields_tile:
  assumes "10 \<le> t"
  shows "slice P 0 2 @ slice P 2 10 @ slice P 10 t @ slice P t (t + 1) @
         slice P (t + 1) (t + 3) @ slice P (t + 3) (t + 4) @ slice P (t + 4) (t + 5) @
         slice P (t + 5) (t + 7) @ slice P (t + 7) (t + 9) = take (t + 9) P"
proof -
  have "slice P (t + 5) (t + 7) @ slice P (t + 7) (t + 9) = slice P (t + 5) (t + 9)"
    by (rule slice_append) simp_all
  then have "slice P (t + 4) (t + 5) @ slice P (t + 5) (t + 7) @ slice P (t + 7) (t + 9)
      = slice P (t + 4) (t + 9)" by (simp add: slice_append)
  then have "slice P (t + 3) (t + 4) @ slice P (t + 4) (t + 5) @ slice P (t + 5) (t + 7) @
      slice P (t + 7) (t + 9) = slice P (t + 3) (t + 9)" by (simp add: slice_append)
  then have "slice P (t + 1) (t + 3) @ slice P (t + 3) (t + 4) @ slice P (t + 4) (t + 5) @
      slice P (t + 5) (t + 7) @ slice P (t + 7) (t + 9) = slice P (t + 1) (t + 9)"
    by (simp add: slice_append)
  then have "slice P t (t + 1) @ slice P (t + 1) (t + 3) @ slice P (t + 3) (t + 4) @
      slice P (t + 4) (t + 5) @ slice P (t + 5) (t + 7) @ slice P (t + 7) (t + 9)
      = slice P t (t + 9)" by (simp add: slice_append)
  then have "slice P 10 t @ slice P t (t + 1) @ slice P (t + 1) (t + 3) @
      slice P (t + 3) (t + 4) @ slice P (t + 4) (t + 5) @ slice P (t + 5) (t + 7) @
      slice P (t + 7) (t + 9) = slice P 10 (t + 9)" using assms by (simp add: slice_append)
  then have "slice P 2 10 @ slice P 10 t @ slice P t (t + 1) @ slice P (t + 1) (t + 3) @
      slice P (t + 3) (t + 4) @ slice P (t + 4) (t + 5) @ slice P (t + 5) (t + 7) @
      slice P (t + 7) (t + 9) = slice P 2 (t + 9)" using assms by (simp add: slice_append)
  then have "slice P 0 2 @ slice P 2 10 @ slice P 10 t @ slice P t (t + 1) @
      slice P (t + 1) (t + 3) @ slice P (t + 3) (t + 4) @ slice P (t + 4) (t + 5) @
      slice P (t + 5) (t + 7) @ slice P (t + 7) (t + 9) = slice P 0 (t + 9)"
    by (simp add: slice_append)
  then show ?thesis by (simp add: slice_def)
qed

subsection \<open>When the rule applies\<close>

text \<open>
  Claim C1 does not hold of the code. The docstring of the method (lines 143 and 144)
  says that it parses the parameter of a successful AT response for an \<^verbatim>\<open>ND\<close>
  command, and the error of line 175 speaks of an \<^verbatim>\<open>ND\<close> response; the test of line
  146 compares the lowered command with \<^verbatim>\<open>b'fn'\<close>. A direct AT response whose
  command is \<^verbatim>\<open>ND\<close> (lowered: \<^verbatim>\<open>nd\<close>) and whose status is the zero byte meets the
  three conditions of the claim, and the method returns nothing for it; the same record
  with the command \<^verbatim>\<open>FN\<close> is parsed.
\<close>

theorem ND_response_not_parsed:
  "lower b_ND = [0x6E, 0x64] \<and>
   parse_FN_at_response (response_record ''at_response'' b_ND b_nul nd_payload) = Returns None \<and>
   parse_FN_at_response (response_record ''at_response'' b_FN b_nul nd_payload)
     = Returns (Some (fixed_fields nd_payload 12))"
proof -
  have "parse_FN_at_response (response_record ''at_response'' b_ND b_nul nd_payload) = Returns None"
    by (rule parse_FN_at_response_not_FN(2) [where command = b_ND])
       (simp_all add: response_record_simps lower_FN)
  moreover have "parse_FN_at_response (response_record ''at_response'' b_FN b_nul nd_payload)
      = parse_parameter nd_payload"
    by (rule parse_FN_at_response_triggered [where command = b_FN])
       (simp_all add: response_record_simps lower_FN)
  moreover have "length nd_payload = 21" by (simp add: nd_payload_def)
  moreover have "lower b_ND = [0x6E, 0x64]" by (simp add: lower_def lower_byte_def b_ND_def)
  ultimately show ?thesis
    by (simp add: parse_parameter_at [OF nd_payload_terminator(1)])
qed

subsection \<open>The optional layouts\<close>

text \<open>
  Claim C2. For a record that passes the test of the rule, with the terminator of the
  node identifier at index \<open>t\<close> and \<open>remaining = len(P) - (t + 9)\<close>: when \<open>remaining\<close>
  is 4 the rule returns a record whose \<^verbatim>\<open>device_type_id\<close> is the four bytes
  \<^verbatim>\<open>P[t+9:t+13]\<close> and which has no \<^verbatim>\<open>rssi\<close>; when it is 5 the rule returns a record
  with the same four bytes and an \<^verbatim>\<open>rssi\<close> that is the last byte of \<open>P\<close>; and a
  returned record holds both keys only when \<open>remaining\<close> is 5.
\<close>

theorem optional_layouts:
  assumes "id_name packet_info \<in> {''at_response'', ''at_remote_response''}"
    and "item packet_info ''command'' = Some command"
    and "lower command = b_fn"
    and "item packet_info ''status'' = Some b_nul"
    and "item packet_info ''parameter'' = Some P"
    and "terminator_at P t"
  shows "(int (length P) - (int t + 9) = 4 \<longrightarrow>
            (\<exists>r. parse_FN_at_response packet_info = Returns (Some r) \<and>
                 r ''device_type_id'' = Some (slice P (t + 9) (t + 13)) \<and>
                 length (slice P (t + 9) (t + 13)) = 4 \<and>
                 r ''rssi'' = None)) \<and>
         (int (length P) - (int t + 9) = 5 \<longrightarrow>
            (\<exists>r. parse_FN_at_response packet_info = Returns (Some r) \<and>
                 r ''device_type_id'' = Some (slice P (t + 9) (t + 13)) \<and>
                 length (slice P (t + 9) (t + 13)) = 4 \<and>
                 r ''rssi'' = Some [last P])) \<and>
         (\<forall>r. parse_FN_at_response packet_info = Returns (Some r) \<and>
               r ''device_type_id'' \<noteq> None \<and> r ''rssi'' \<noteq> None \<longrightarrow>
               int (length P) - (int t + 9) = 5)"
proof -
  note p = parse_FN_at_response_triggered [OF assms(1-5)] parse_parameter_at [OF assms(6)]
  have four: "int (length P) - (int t + 9) = 4 \<longleftrightarrow> length P = t + 13" by linarith
  have five: "int (length P) - (int t + 9) = 5 \<longleftrightarrow> length P = t + 14" by linarith
  have c4: "\<exists>r. parse_FN_at_response packet_info = Returns (Some r) \<and>
                 r ''device_type_id'' = Some (slice P (t + 9) (t + 13)) \<and>
                 length (slice P (t + 9) (t + 13)) = 4 \<and>
                 r ''rssi'' = None" if "length P = t + 13"
    using that by (simp add: p fixed_fields_no_optional) (simp add: slice_def)
  have c5: "\<exists>r. parse_FN_at_response packet_info = Returns (Some r) \<and>
                 r ''device_type_id'' = Some (slice P (t + 9) (t + 13)) \<and>
                 length (slice P (t + 9) (t + 13)) = 4 \<and>
                 r ''rssi'' = Some [last P]" if "length P = t + 14"
  proof -
    have "slice P (t + 13) (t + 14) = [last P]"
      using slice_last [of P "t + 13"] that by (simp add: add.commute)
    moreover have "length (slice P (t + 9) (t + 13)) = 4" using that by (simp add: slice_def)
    ultimately show ?thesis using that by (simp add: p)
  qed
  have only: "length P = t + 14"
    if "parse_FN_at_response packet_info = Returns (Some r)"
      "r ''device_type_id'' \<noteq> None" "r ''rssi'' \<noteq> None" for r
    using that unfolding p by (auto simp: fixed_fields_no_optional split: if_splits)
  show ?thesis unfolding four five using c4 c5 only by blast
qed

theorem optional_layouts_witness:
  "\<exists>r. parse_FN_at_response
          (response_record ''at_response'' b_FN b_nul (nd_payload @ [0x00, 0x03, 0x00, 0x00, 0x2A]))
          = Returns (Some r) \<and>
        r ''device_type_id'' = Some [0x00, 0x03, 0x00, 0x00] \<and> r ''rssi'' = Some [0x2A]"
  using optional_layouts
    [of "response_record ''at_response'' b_FN b_nul (nd_payload @ [0x00, 0x03, 0x00, 0x00, 0x2A])"
        b_FN "nd_payload @ [0x00, 0x03, 0x00, 0x00, 0x2A]" 12]
    nd_payload_terminator(3)
  by (simp add: response_record_simps lower_FN) (simp add: nd_payload_def slice_def)

subsection \<open>The length check\<close>

text \<open>
  Claim C3, as the code has it. The check of line 174 compares the index after the
  optional layout with the length, and without an optional layout the index is still
  \<open>t + 9\<close>: a payload that ends right after the manufacturer passes. So the rule raises
  the length error, reporting the length of \<open>P\<close> as expected and \<open>t + 9\<close> as read, when
  \<open>remaining\<close> is none of 0, 4 and 5; when \<open>remaining\<close> is 0 it returns a record with
  neither \<^verbatim>\<open>device_type_id\<close> nor \<^verbatim>\<open>rssi\<close>.
\<close>

theorem length_mismatch:
  assumes "id_name packet_info \<in> {''at_response'', ''at_remote_response''}"
    and "item packet_info ''command'' = Some command"
    and "lower command = b_fn"
    and "item packet_info ''status'' = Some b_nul"
    and "item packet_info ''parameter'' = Some P"
    and "terminator_at P t"
  shows "(int (length P) - (int t + 9) \<notin> {0, 4, 5} \<longrightarrow>
            parse_FN_at_response packet_info = Raises (ValueError_ND_length (length P) (t + 9))) \<and>
         (int (length P) - (int t + 9) = 0 \<longrightarrow>
            (\<exists>r. parse_FN_at_response packet_info = Returns (Some r) \<and>
                 r ''device_type_id'' = None \<and> r ''rssi'' = None))"
proof -
  note p = parse_FN_at_response_triggered [OF assms(1-5)] parse_parameter_at [OF assms(6)]
  have "int (length P) - (int t + 9) \<notin> {0, 4, 5} \<longleftrightarrow>
          length P \<noteq> t + 9 \<and> length P \<noteq> t + 13 \<and> length P \<noteq> t + 14"
    by (simp; linarith)
  moreover have "int (length P) - (int t + 9) = 0 \<longleftrightarrow> length P = t + 9" by linarith
  ultimately show ?thesis by (simp add: p fixed_fields_no_optional)
qed

theorem length_mismatch_witness:
  "parse_FN_at_response
     (response_record ''at_response'' b_FN b_nul (nd_payload @ [0x00, 0x03, 0x00, 0x00, 0x2A, 0x07]))
     = Raises (ValueError_ND_length 27 21)"
  using length_mismatch
    [of "response_record ''at_response'' b_FN b_nul (nd_payload @ [0x00, 0x03, 0x00, 0x00, 0x2A, 0x07])"
        b_FN "nd_payload @ [0x00, 0x03, 0x00, 0x00, 0x2A, 0x07]" 12]
    nd_payload_terminator(4)
  by (simp add: response_record_simps lower_FN) (simp add: nd_payload_def)

text \<open>
  Claim C3 as stated fails at \<open>remaining = 0\<close>: the 21-byte payload has its terminator at
  index 12, \<open>remaining\<close> is neither 4 nor 5, and the rule returns the record of the fixed
  fields.
\<close>

theorem remaining_zero_counterexample:
  "terminator_at nd_payload 12 \<and>
   int (length nd_payload) - (12 + 9) \<notin> {4, 5} \<and>
   parse_FN_at_response (response_record ''at_response'' b_FN b_nul nd_payload)
     = Returns (Some (fixed_fields nd_payload 12))"
proof -
  have "parse_FN_at_response (response_record ''at_response'' b_FN b_nul nd_payload)
      = parse_parameter nd_payload"
    by (rule parse_FN_at_response_triggered [where command = b_FN])
       (simp_all add: response_record_simps lower_FN)
  moreover have "length nd_payload = 21" by (simp add: nd_payload_def)
  ultimately show ?thesis
    by (simp add: parse_parameter_at [OF nd_payload_terminator(1)] nd_payload_terminator(1))
qed

subsection \<open>The offsets of the fixed fields\<close>

text \<open>
  Claim C5. When the rule returns a record for the parameter \<open>P\<close>, there is an index
  \<open>t\<close>, the terminator of the node identifier, with \<open>t + 9\<close> at most the length of
  \<open>P\<close>, such that the record holds \<^verbatim>\<open>P[0:2]\<close> as short address, \<^verbatim>\<open>P[2:10]\<close> as long
  address, \<^verbatim>\<open>P[10:t]\<close> as node identifier and, from \<open>t + 1\<close> on, the parent address
  (2 bytes), the device type (1), the status (1), the profile id (2) and the
  manufacturer id (2), each of its full width. These fields and the terminator between
  them are exactly the first \<open>t + 9\<close> bytes of \<open>P\<close>.
\<close>

theorem fixed_offsets:
  assumes "item packet_info ''parameter'' = Some P"
    and "parse_FN_at_response packet_info = Returns (Some r)"
  shows "\<exists>t. terminator_at P t \<and> t + 9 \<le> length P \<and>
     r ''source_addr'' = Some (slice P 0 2) \<and> length (slice P 0 2) = 2 \<and>
     r ''source_addr_long'' = Some (slice P 2 10) \<and> length (slice P 2 10) = 8 \<and>
     r ''node_identifier'' = Some (slice P 10 t) \<and> length (slice P 10 t) = t - 10 \<and>
     r ''parent_address'' = Some (slice P (t + 1) (t + 3)) \<and>
       length (slice P (t + 1) (t + 3)) = 2 \<and>
     r ''device_type'' = Some (slice P (t + 3) (t + 4)) \<and>
       length (slice P (t + 3) (t + 4)) = 1 \<and>
     r ''status'' = Some (slice P (t + 4) (t + 5)) \<and>
       length (slice P (t + 4) (t + 5)) = 1 \<and>
     r ''profile_id'' = Some (slice P (t + 5) (t + 7)) \<and>
       length (slice P (t + 5) (t + 7)) = 2 \<and>
     r ''manufacturer'' = Some (slice P (t + 7) (t + 9)) \<and>
       length (slice P (t + 7) (t + 9)) = 2 \<and>
     take (t + 9) P =
       slice P 0 2 @ slice P 2 10 @ slice P 10 t @ b_nul @ slice P (t + 1) (t + 3) @
       slice P (t + 3) (t + 4) @ slice P (t + 4) (t + 5) @ slice P (t + 5) (t + 7) @
       slice P (t + 7) (t + 9)"
proof -
  from parse_parameter_Some [OF parse_FN_at_response_Some [OF assms(2,1)]]
  obtain t where t: "terminator_at P t"
    and len: "length P = t + 9 \<or> length P = t + 13 \<or> length P = t + 14"
    and r: "\<forall>k. k \<noteq> ''device_type_id'' \<and> k \<noteq> ''rssi'' \<longrightarrow> r k = fixed_fields P t k"
    by blast
  from len have le: "t + 9 \<le> length P" by auto
  from t have t10: "10 \<le> t" and nul: "slice P t (t + 1) = b_nul"
    by (simp_all add: terminator_at_def)
  have look: "r ''source_addr'' = Some (slice P 0 2)"
    "r ''source_addr_long'' = Some (slice P 2 10)"
    "r ''node_identifier'' = Some (slice P 10 t)"
    "r ''parent_address'' = Some (slice P (t + 1) (t + 3))"
    "r ''device_type'' = Some (slice P (t + 3) (t + 4))"
    "r ''status'' = Some (slice P (t + 4) (t + 5))"
    "r ''profile_id'' = Some (slice P (t + 5) (t + 7))"
    "r ''manufacturer'' = Some (slice P (t + 7) (t + 9))"
    by (simp_all add: r fixed_fields_lookup)
  have lens: "length (slice P 0 2) = 2" "length (slice P 2 10) = 8"
    "length (slice P 10 t) = t - 10" "length (slice P (t + 1) (t + 3)) = 2"
    "length (slice P (t + 3) (t + 4)) = 1" "length (slice P (t + 4) (t + 5)) = 1"
    "length (slice P (t + 5) (t + 7)) = 2" "length (slice P (t + 7) (t + 9)) = 2"
    using le t10 by (simp_all add: length_slice)
  have tile: "take (t + 9) P =
       slice P 0 2 @ slice P 2 10 @ slice P 10 t @ b_nul @ slice P (t + 1) (t + 3) @
       slice P (t + 3) (t + 4) @ slice P (t + 4) (t + 5) @ slice P (t + 5) (t + 7) @
       slice P (t + 7) (t + 9)"
    using fields_tile [OF t10, of P] nul by simp
  show ?thesis
    by (rule exI [of _ t]) (use t le look lens tile in blast)
qed

theorem fixed_offsets_witness:
  "item (response_record ''at_response'' b_FN b_nul (nd_payload @ [0x00, 0x03, 0x00, 0x00]))
      ''parameter'' = Some (nd_payload @ [0x00, 0x03, 0x00, 0x00]) \<and>
   parse_FN_at_response
      (response_record ''at_response'' b_FN b_nul (nd_payload @ [0x00, 0x03, 0x00, 0x00]))
     = Returns (Some ((fixed_fields (nd_payload @ [0x00, 0x03, 0x00, 0x00]) 12)
                       (''device_type_id'' \<mapsto> [0x00, 0x03, 0x00, 0x00]))) \<and>
   (\<exists>t. terminator_at (nd_payload @ [0x00, 0x03, 0x00, 0x00]) t \<and>
        take (t + 9) (nd_payload @ [0x00, 0x03, 0x00, 0x00]) =
          [0x12, 0x34] @ [0x00, 0x13, 0xA2, 0x00, 0x40, 0x52, 0x2B, 0xAA] @
          slice (nd_payload @ [0x00, 0x03, 0x00, 0x00]) 10 t @ b_nul @
          slice (nd_payload @ [0x00, 0x03, 0x00, 0x00]) (t + 1) (t + 3) @
          slice (nd_payload @ [0x00, 0x03, 0x00, 0x00]) (t + 3) (t + 4) @
          slice (nd_payload @ [0x00, 0x03, 0x00, 0x00]) (t + 4) (t + 5) @
          slice (nd_payload @ [0x00, 0x03, 0x00, 0x00]) (t + 5) (t + 7) @
          slice (nd_payload @ [0x00, 0x03, 0x00, 0x00]) (t + 7) (t + 9))"
proof -
  let ?P = "nd_payload @ [0x00, 0x03, 0x00, 0x00]"
  let ?info = "response_record ''at_response'' b_FN b_nul ?P"
  have h1: "item ?info ''parameter'' = Some ?P" by (simp add: response_record_simps)
  have "parse_FN_at_response ?info = parse_parameter ?P"
    by (rule parse_FN_at_response_triggered [where command = b_FN])
       (simp_all add: response_record_simps lower_FN)
  moreover have "length ?P = 25" by (simp add: nd_payload_def)
  moreover have "slice ?P 21 25 = [0x00, 0x03, 0x00, 0x00]"
    by (simp add: nd_payload_def slice_def)
  ultimately have h2: "parse_FN_at_response ?info
      = Returns (Some ((fixed_fields ?P 12)(''device_type_id'' \<mapsto> [0x00, 0x03, 0x00, 0x00])))"
    by (simp add: parse_parameter_at [OF nd_payload_terminator(2)])
  have a: "slice ?P 0 2 = [0x12, 0x34]"
    and b: "slice ?P 2 10 = [0x00, 0x13, 0xA2, 0x00, 0x40, 0x52, 0x2B, 0xAA]"
    by (simp_all add: nd_payload_def slice_def)
  from fixed_offsets [OF h1 h2] show ?thesis
    unfolding a b using h1 h2 by blast
qed

subsection \<open>A parameter without terminator\<close>

text \<open>
  Claim C10. For a record that passes the test of the rule and whose parameter has no
  zero byte at any index from 10 on, the loop of the rule never ends: the call neither
  returns nor raises.
\<close>

theorem scan_never_ends:
  assumes "id_name packet_info \<in> {''at_response'', ''at_remote_response''}"
    and "item packet_info ''command'' = Some command"
    and "lower command = b_fn"
    and "item packet_info ''status'' = Some b_nul"
    and "item packet_info ''parameter'' = Some P"
    and "0 \<notin> set (drop 10 P)"
  shows "parse_FN_at_response packet_info = Diverges"
  using parse_FN_at_response_triggered [OF assms(1-5)] parse_parameter_no_terminator [OF assms(6)]
  by simp

theorem scan_never_ends_witness:
  "parse_FN_at_response
     (response_record ''at_response'' b_FN b_nul
        [0x12, 0x34, 0x00, 0x13, 0xA2, 0x00, 0x40, 0x52, 0x2B, 0xAA, 0x41, 0x42]) = Diverges"
  by (rule scan_never_ends
        [where command = b_FN
           and P = "[0x12, 0x34, 0x00, 0x13, 0xA2, 0x00, 0x40, 0x52, 0x2B, 0xAA, 0x41, 0x42]"])
     (simp_all add: response_record_simps lower_FN)

section \<open>The encoder\<close>

lemma roundtrip_fields:
  assumes "fixed_then_rest fs"
    and "\<forall>f\<in>set fs. \<exists>v. ov (name f) = Some v \<and> (\<forall>n. len f = LenInt n \<longrightarrow> length v = n)"
  shows "\<exists>b. encode_fields c ov fs = Inr b \<and>
             map (\<lambda>(k, v). (k, Some v)) (resplit fs b) = map (\<lambda>f. (name f, ov (name f))) fs"
  using assms
proof (induction fs rule: fixed_then_rest.induct)
  case 1
  then show ?case by simp
next
  case (2 f)
  then obtain v where v: "ov (name f) = Some v" "\<forall>n. len f = LenInt n \<longrightarrow> length v = n"
    by auto
  with 2 show ?case
    by (cases "len f") (simp_all add: resolve_field_def)
next
  case (3 f g gs)
  then obtain n where n: "len f = LenInt n" by auto
  from 3 obtain v where v: "ov (name f) = Some v" "length v = n" using n by auto
  from 3 obtain b where b: "encode_fields c ov (g # gs) = Inr b"
    "map (\<lambda>(k, v). (k, Some v)) (resplit (g # gs) b) = map (\<lambda>f. (name f, ov (name f))) (g # gs)"
    by auto
  have "encode_fields c ov (f # g # gs) = Inr (v @ b)"
    using n v b(1) by (simp add: resolve_field_def)
  moreover have "resplit (f # g # gs) (v @ b) = (name f, v) # resplit (g # gs) b"
    using n v by simp
  ultimately show ?case using b(2) v(1) by simp
qed


lemma api_commands_fixed_then_rest:
  assumes "map_of api_commands command_name = Some schema"
  shows "fixed_then_rest schema"
proof -
  from assms have "command_name \<in> {''at'', ''queued_at'', ''remote_at'', ''tx''}"
    by (auto simp: api_commands_def split: if_splits)
  then show ?thesis using assms
    by (auto simp: api_commands_def)
qed

text \<open>
  Claim C6 does not hold of the code. The claim expects the defaults of \<^verbatim>\<open>tx\<close> to be
  sent as the bytes 0x10, 0x00, 0xFF 0xFE, 0x00, 0x00 around the two overrides. The
  defaults of lines 57 to 62 are \<^verbatim>\<open>str\<close> literals, where the keys of
  \<^verbatim>\<open>api_responses\<close> and the literals of line 146 are bytes; with the destination
  address of eight zero bytes and the data \<^verbatim>\<open>hi\<close> as overrides, the first field,
  \<^verbatim>\<open>id\<close>, resolves to the \<^verbatim>\<open>str\<close> of its default, which cannot be joined to the
  bytes of the frame: the encoder written from the specification, run on the table of
  the source, ends in the type error and produces no byte sequence.
\<close>

theorem tx_scenario_type_error:
  "(\<exists>schema. map_of api_commands ''tx'' = Some schema \<and>
      map default schema =
        [Some (Str [CHR 0x10]), Some (Str [CHR 0x00]), None, Some (Str [CHR 0xFF, CHR 0xFE]),
         Some (Str [CHR 0x00]), Some (Str [CHR 0x00]), None]) \<and>
   encode ''tx'' [''dest_addr'' \<mapsto> [0x00, 0x00, 0x00, 0x00, 0x00, 0x00, 0x00, 0x00],
                  ''data'' \<mapsto> [0x68, 0x69]]
     = Inl (TypeError_concat ''id'')"
  by (simp add: encode_def api_commands_def resolve_field_def)

text \<open>
  Claim C7, on the encoder written from the specification. For every schema of
  \<^verbatim>\<open>api_commands\<close> and every mapping that gives each field a value, of the declared
  length where the field declares one, encoding succeeds, and cutting the bytes by the
  declared lengths in order gives back, field by field, the value supplied.
\<close>

theorem roundtrip:
  assumes "map_of api_commands command_name = Some schema"
    and "\<forall>f\<in>set schema. \<exists>v. field_overrides (name f) = Some v \<and>
            (\<forall>n. len f = LenInt n \<longrightarrow> length v = n)"
  shows "\<exists>b. encode command_name field_overrides = Inr b \<and>
             map (\<lambda>(k, v). (k, Some v)) (resplit schema b)
               = map (\<lambda>f. (name f, field_overrides (name f))) schema"
  using roundtrip_fields [OF api_commands_fixed_then_rest [OF assms(1)] assms(2)] assms(1)
  by (simp add: encode_def)

theorem roundtrip_witness:
  "\<exists>schema b. map_of api_commands ''tx'' = Some schema \<and>
     encode ''tx'' tx_overrides = Inr b \<and>
     resplit schema b =
       [(''id'', [0x10]), (''frame_id'', [0x07]),
        (''dest_addr'', [0x00, 0x13, 0xA2, 0x00, 0x40, 0x52, 0x2B, 0xAA]),
        (''reserved'', [0xFF, 0xFE]), (''broadcast_radius'', [0x02]), (''options'', [0x01]),
        (''data'', [0x68, 0x69, 0x21])]"
proof -
  obtain schema where s: "map_of api_commands ''tx'' = Some schema"
    by (simp add: api_commands_def)
  then have schema: "schema = snd (api_commands ! 3)" by (simp add: api_commands_def)
  have "\<forall>f\<in>set schema. \<exists>v. tx_overrides (name f) = Some v \<and>
            (\<forall>n. len f = LenInt n \<longrightarrow> length v = n)"
    unfolding schema by (simp add: api_commands_def tx_overrides_def)
  from roundtrip [OF s this] obtain b where b: "encode ''tx'' tx_overrides = Inr b"
    "map (\<lambda>(k, v). (k, Some v)) (resplit schema b)
       = map (\<lambda>f. (name f, tx_overrides (name f))) schema" by blast
  from b(2) have "resplit schema b =
       [(''id'', [0x10]), (''frame_id'', [0x07]),
        (''dest_addr'', [0x00, 0x13, 0xA2, 0x00, 0x40, 0x52, 0x2B, 0xAA]),
        (''reserved'', [0xFF, 0xFE]), (''broadcast_radius'', [0x02]), (''options'', [0x01]),
        (''data'', [0x68, 0x69, 0x21])]"
    unfolding schema by (auto simp: api_commands_def tx_overrides_def)
  with s b(1) show ?thesis by blast
qed

section \<open>The decoder\<close>

lemma walk_fields_fixed:
  assumes "len f = LenInt n" "length v = n"
  shows "walk_fields (f # fs) (v @ b) =
     (case walk_fields fs b of Inl e \<Rightarrow> Inl e | Inr (vs, r) \<Rightarrow> Inr ((name f, v) # vs, r))"
  using assms by (simp split: sum.splits)

lemma walk_fields_null_terminated_empty:
  assumes "len f = LenNullTerminated"
  shows "walk_fields (f # fs) (0 # b) =
     (case walk_fields fs b of Inl e \<Rightarrow> Inl e | Inr (vs, r) \<Rightarrow> Inr ((name f, []) # vs, r))"
  using assms by (simp split: sum.splits)

lemma walk_fields_rest:
  assumes "len f = LenNone"
  shows "walk_fields [f] b = Inr ([(name f, b)], [])"
  using assms by simp

lemma decode_packet:
  assumes "map_of api_responses (BytesKey [type_id]) = Some (Packet p)"
    and "walk_fields (structure_fields p) payload = Inr (vs, [])"
    and "apply_rules \<lparr>id_name = packet_name p, item = map_of vs\<rparr>
           (case parsing p of None \<Rightarrow> [] | Some rules \<Rightarrow> rules)
           (map (\<lambda>(k, v). (k, Raw v)) vs) = Returns fs"
  shows "decode (type_id # payload) = Returns \<lparr>record_type = packet_name p, record_fields = fs\<rparr>"
  using assms by (simp add: decode_def)

text \<open>
  Claim C8, on the decoder written from the specification. A frame of type 0x95 whose
  zero byte stands right where the node identifier starts decodes to a record whose
  \<^verbatim>\<open>node_id\<close> is empty; the zero byte is in no field, and the two bytes after it are
  the parent.
\<close>

theorem node_id_empty_identifier:
  assumes "length source_addr_long = 8" "length network_addr = 2" "length options = 1"
    "length source_addr = 2" "length network_addr_long = 8" "length parent = 2"
  shows "decode (0x95 # source_addr_long @ network_addr @ options @ source_addr @
                 network_addr_long @ 0 # parent @ unknown)
     = Returns \<lparr>record_type = ''node_id'',
          record_fields =
            [(''source_addr_long'', Raw source_addr_long), (''network_addr'', Raw network_addr),
             (''options'', Raw options), (''source_addr'', Raw source_addr),
             (''network_addr_long'', Raw network_addr_long), (''node_id'', Raw []),
             (''parent'', Raw parent), (''unknown'', Raw unknown)]\<rparr>"
proof -
  have "walk_fields
     [\<lparr>name = ''source_addr_long'', len = LenInt 8, default = None\<rparr>,
      \<lparr>name = ''network_addr'', len = LenInt 2, default = None\<rparr>,
      \<lparr>name = ''options'', len = LenInt 1, default = None\<rparr>,
      \<lparr>name = ''source_addr'', len = LenInt 2, default = None\<rparr>,
      \<lparr>name = ''network_addr_long'', len = LenInt 8, default = None\<rparr>,
      \<lparr>name = ''node_id'', len = LenNullTerminated, default = None\<rparr>,
      \<lparr>name = ''parent'', len = LenInt 2, default = None\<rparr>,
      \<lparr>name = ''unknown'', len = LenNone, default = None\<rparr>]
     (source_addr_long @ network_addr @ options @ source_addr @
                 network_addr_long @ 0 # parent @ unknown)
    = Inr ([(''source_addr_long'', source_addr_long), (''network_addr'', network_addr),
             (''options'', options), (''source_addr'', source_addr),
             (''network_addr_long'', network_addr_long), (''node_id'', []),
             (''parent'', parent), (''unknown'', unknown)], [])"
    using assms
    by (simp only: walk_fields_fixed walk_fields_null_terminated_empty walk_fields_rest
          field.simps sum.case prod.case)
  then show ?thesis
    by (simp add: decode_def api_responses_def)
qed


theorem node_id_empty_identifier_witness:
  "decode ([0x95] @ [0x00, 0x13, 0xA2, 0x00, 0x40, 0x52, 0x2B, 0xAA] @ [0x7D, 0x84] @ [0x02] @
           [0x7D, 0x84] @ [0x00, 0x13, 0xA2, 0x00, 0x40, 0x52, 0x2B, 0xAA] @ [0x00] @
           [0xFF, 0xFE] @ [0x01, 0x01, 0xC1, 0x05])
     = Returns \<lparr>record_type = ''node_id'',
          record_fields =
            [(''source_addr_long'', Raw [0x00, 0x13, 0xA2, 0x00, 0x40, 0x52, 0x2B, 0xAA]),
             (''network_addr'', Raw [0x7D, 0x84]),
             (''options'', Raw [0x02]), (''source_addr'', Raw [0x7D, 0x84]),
             (''network_addr_long'', Raw [0x00, 0x13, 0xA2, 0x00, 0x40, 0x52, 0x2B, 0xAA]),
             (''node_id'', Raw []),
             (''parent'', Raw [0xFF, 0xFE]), (''unknown'', Raw [0x01, 0x01, 0xC1, 0x05])]\<rparr>"
  using node_id_empty_identifier
    [of "[0x00, 0x13, 0xA2, 0x00, 0x40, 0x52, 0x2B, 0xAA]" "[0x7D, 0x84]" "[0x02]" "[0x7D, 0x84]"
        "[0x00, 0x13, 0xA2, 0x00, 0x40, 0x52, 0x2B, 0xAA]" "[0xFF, 0xFE]"
        "[0x01, 0x01, 0xC1, 0x05]"]
  by simp

section \<open>The remote AT response\<close>

lemma parse_direct:
  "parse_FN_at_response (response_record ''at_response'' b_FN b_nul nd_payload)
     = Returns (Some (fixed_fields nd_payload 12))"
proof -
  have "parse_FN_at_response (response_record ''at_response'' b_FN b_nul nd_payload)
      = parse_parameter nd_payload"
    by (rule parse_FN_at_response_triggered [where command = b_FN])
       (simp_all add: response_record_simps lower_FN)
  moreover have "length nd_payload = 21" by (simp add: nd_payload_def)
  ultimately show ?thesis by (simp add: parse_parameter_at [OF nd_payload_terminator(1)])
qed

text \<open>
  Claim C4 does not hold of the code. The packet of 0x88 carries the parsing rule; the
  packet of 0x97 carries none, because its rule stands outside its dictionary, as the
  value of a key \<^verbatim>\<open>'parsing'\<close> of the table itself. And the test of line 146 asks for
  the name \<^verbatim>\<open>at_remote_response\<close>, while the packet of 0x97 is named
  \<^verbatim>\<open>remote_at_response\<close>: on a successful remote response to \<^verbatim>\<open>FN\<close> the rule returns
  nothing, where the direct response with the same payload is parsed.
\<close>

theorem remote_response_not_parsed:
  "(\<exists>p. map_of api_responses (BytesKey [0x88]) = Some (Packet p) \<and>
        packet_name p = ''at_response'' \<and>
        parsing p = Some [(''parameter'', Call_parse_FN_at_response)]) \<and>
   (\<exists>p. map_of api_responses (BytesKey [0x97]) = Some (Packet p) \<and>
        packet_name p = ''remote_at_response'' \<and> parsing p = None) \<and>
   map_of api_responses (StrKey ''parsing'')
     = Some (Rules [(''parameter'', Call_parse_FN_at_response)]) \<and>
   parse_FN_at_response (response_record ''at_response'' b_FN b_nul nd_payload)
     = Returns (Some (fixed_fields nd_payload 12)) \<and>
   parse_FN_at_response remote_record = Returns None"
proof -
  have "parse_FN_at_response remote_record = Returns None"
    by (rule parse_FN_at_response_not_FN(1)) (simp add: remote_record_def)
  then show ?thesis
    by (simp add: parse_direct) (simp add: api_responses_def)
qed

text \<open>
  The same on whole frames, through the decoder written from the specification: the
  parameter of the direct response becomes a nested record, the one of the remote
  response stays raw.
\<close>

lemma decode_direct_frame:
  "decode direct_frame
     = Returns \<lparr>record_type = ''at_response'',
          record_fields = [(''frame_id'', Raw [0x01]), (''command'', Raw b_FN),
             (''status'', Raw b_nul), (''parameter'', Structured (fixed_fields nd_payload 12))]\<rparr>"
proof -
  let ?p = "\<lparr>packet_name = ''at_response'',
         structure_fields =
           [\<lparr>name = ''frame_id'', len = LenInt 1, default = None\<rparr>,
            \<lparr>name = ''command'', len = LenInt 2, default = None\<rparr>,
            \<lparr>name = ''status'', len = LenInt 1, default = None\<rparr>,
            \<lparr>name = ''parameter'', len = LenNone, default = None\<rparr>],
         parsing = Some [(''parameter'', Call_parse_FN_at_response)]\<rparr>"
  let ?vs = "[(''frame_id'', [0x01]), (''command'', b_FN), (''status'', b_nul),
             (''parameter'', nd_payload)]"
  have l: "map_of api_responses (BytesKey [0x88]) = Some (Packet ?p)"
    by (simp add: api_responses_def)
  have w: "walk_fields (structure_fields ?p) ([0x01] @ b_FN @ b_nul @ nd_payload) = Inr (?vs, [])"
    by (simp add: b_FN_def b_nul_def)
  have i: "\<lparr>id_name = ''at_response'', item = map_of ?vs\<rparr>
      = response_record ''at_response'' b_FN b_nul nd_payload"
    by (simp add: response_record_def fun_eq_iff)
  have r: "apply_rules \<lparr>id_name = packet_name ?p, item = map_of ?vs\<rparr>
           (case parsing ?p of None \<Rightarrow> [] | Some rules \<Rightarrow> rules)
           (map (\<lambda>(k, v). (k, Raw v)) ?vs)
      = Returns [(''frame_id'', Raw [0x01]), (''command'', Raw b_FN),
             (''status'', Raw b_nul), (''parameter'', Structured (fixed_fields nd_payload 12))]"
    using i parse_direct by simp
  from decode_packet [OF l w r] show ?thesis by (simp add: direct_frame_def)
qed

lemma decode_remote_frame:
  "decode remote_frame
     = Returns \<lparr>record_type = ''remote_at_response'',
          record_fields = [(''frame_id'', Raw [0x01]),
             (''source_addr'', Raw [0x00, 0x13, 0xA2, 0x00, 0x40, 0x52, 0x2B, 0xAA]),
             (''reserved'', Raw [0xFF, 0xFE]), (''command'', Raw b_FN),
             (''status'', Raw b_nul), (''parameter'', Raw nd_payload)]\<rparr>"
  by (simp add: decode_def remote_frame_def api_responses_def b_FN_def b_nul_def)

section \<open>The parsing rule reads and does not write\<close>

lemma new_dict_eq: "new_dict s = (next_addr s, with_dict s Map.empty)"
  by (simp add: new_dict_def with_dict_def write_object_def)

lemma getitem_Dict:
  "heap s a = Some (Dict d) \<Longrightarrow>
     getitem s a k = (case d k of None \<Rightarrow> Inl (Py (KeyError k)) | Some v \<Rightarrow> Inr v)"
  by (simp add: getitem_def)

lemma getitem_with_dict:
  "a \<noteq> next_addr s \<Longrightarrow> getitem (with_dict s d) a k = getitem s a k"
  by (simp add: getitem_def with_dict_def)

lemma setitem_with_dict:
  "setitem (with_dict s d) (next_addr s) k v = Inr (with_dict s (d(k \<mapsto> v)))"
  by (simp add: setitem_def with_dict_def write_object_def)

lemma store_slices_with_dict:
  assumes "a \<noteq> next_addr s" and "getitem s a ''parameter'' = Inr v"
  shows "store_slices a (next_addr s) ks (with_dict s d)
     = Inr (with_dict s (put_slices v ks d))"
proof (induction ks arbitrary: d)
  case Nil
  show ?case by simp
next
  case (Cons x ks)
  obtain k i j where x: "x = (k, i, j)" by (cases x)
  have step: "store_slice a (next_addr s) k i j (with_dict s d)
      = Inr (with_dict s (d(k \<mapsto> slice_val v i j)))"
    using assms by (simp add: store_slice_def getitem_with_dict setitem_with_dict)
  have rest: "store_slices a (next_addr s) ks (with_dict s (d(k \<mapsto> slice_val v i j)))
      = Inr (with_dict s (put_slices v ks (d(k \<mapsto> slice_val v i j))))"
    by (rule Cons)
  show ?case unfolding x by (simp only: store_slices.simps step rest sum.case put_slices.simps)
qed

lemma slice_val_nul:
  "slice_val (Bytes P) i j = Bytes b_nul \<longleftrightarrow> slice P i j = b_nul"
  "slice_val (Str t) i j \<noteq> Bytes b_nul"
  by (simp_all add: slice_val_def)

lemma find_null_terminator_st_Some:
  assumes "find_null_terminator_st s a i = Some x" and "getitem s a ''parameter'' = Inr v"
  shows "\<exists>t. x = Inr t \<and> scan_val v i = Some t"
proof -
  let ?Q = "\<lambda>s a i x. getitem s a ''parameter'' = Inr v \<longrightarrow>
               (\<exists>t. x = Inr t \<and> scan_val v i = Some t)"
  have "?Q s a i x"
  proof (rule find_null_terminator_st.raw_induct [where P = ?Q, OF _ assms(1)])
    fix f :: "state \<Rightarrow> addr \<Rightarrow> nat \<Rightarrow> (st_error + nat) option" and s a i x
    assume ih: "\<And>s a i x. f s a i = Some x \<Longrightarrow> ?Q s a i x"
      and body: "(case getitem s a ''parameter'' of
                    Inl e \<Rightarrow> Some (Inl e)
                  | Inr parameter \<Rightarrow>
                      (if slice_val parameter i (i + 1) \<noteq> Bytes b_nul then f s a (i + 1)
                       else Some (Inr i))) = Some x"
    show "?Q s a i x"
    proof
      assume g: "getitem s a ''parameter'' = Inr v"
      show "\<exists>t. x = Inr t \<and> scan_val v i = Some t"
      proof (cases "slice_val v i (i + 1) = Bytes b_nul")
        case True
        then obtain P where P: "v = Bytes P" "slice P i (i + 1) = b_nul"
          by (cases v) (simp_all add: slice_val_nul)
        from True body g have "x = Inr i" by simp
        moreover from P have "scan_val v i = Some i"
          unfolding scan_val_def by (subst find_null_terminator.simps) simp
        ultimately show ?thesis by simp
      next
        case False
        with body g have "f s a (i + 1) = Some x" by simp
        from ih [OF this] g obtain t where t: "x = Inr t" "scan_val v (i + 1) = Some t"
          by blast
        then obtain P where P: "v = Bytes P" "find_null_terminator P (i + 1) = Some t"
          by (cases v) (simp_all add: scan_val_def)
        with False have "slice P i (i + 1) \<noteq> b_nul" by (simp add: slice_val_nul)
        with P have "find_null_terminator P i = Some t"
          by (subst find_null_terminator.simps) simp
        with P t show ?thesis by (simp add: scan_val_def)
      qed
    qed
  qed
  with assms(2) show ?thesis by simp
qed

lemma find_null_terminator_st_of_pure:
  assumes "find_null_terminator P i = Some t" and "getitem s a ''parameter'' = Inr (Bytes P)"
  shows "find_null_terminator_st s a i = Some (Inr t)"
proof -
  let ?Q = "\<lambda>P' i t. P' = P \<longrightarrow> find_null_terminator_st s a i = Some (Inr t)"
  have "?Q P i t"
  proof (rule find_null_terminator.raw_induct [where P = ?Q, OF _ assms(1)])
    fix f :: "bytes \<Rightarrow> nat \<Rightarrow> nat option" and P' i t
    assume ih: "\<And>P' i t. f P' i = Some t \<Longrightarrow> ?Q P' i t"
      and body: "(if slice P' i (i + 1) \<noteq> b_nul then f P' (i + 1) else Some i) = Some t"
    show "?Q P' i t"
    proof
      assume P': "P' = P"
      show "find_null_terminator_st s a i = Some (Inr t)"
      proof (cases "slice P i (i + 1) = b_nul")
        case True
        with body P' have "t = i" by simp
        with True assms(2) show ?thesis
          by (subst find_null_terminator_st.simps) (simp add: slice_val_nul)
      next
        case False
        with body P' have "f P' (i + 1) = Some t" by simp
        from ih [OF this] P' have "find_null_terminator_st s a (i + 1) = Some (Inr t)" by simp
        with False assms(2) show ?thesis
          by (subst find_null_terminator_st.simps) (simp add: slice_val_nul)
      qed
    qed
  qed
  then show ?thesis by simp
qed

lemma find_null_terminator_st_eq:
  assumes "getitem s a ''parameter'' = Inr v"
  shows "find_null_terminator_st s a i = map_option Inr (scan_val v i)"
proof (cases "scan_val v i")
  case None
  have "find_null_terminator_st s a i = None"
  proof (rule ccontr)
    assume "find_null_terminator_st s a i \<noteq> None"
    then obtain x where "find_null_terminator_st s a i = Some x" by auto
    from find_null_terminator_st_Some [OF this assms] None show False by auto
  qed
  with None show ?thesis by simp
next
  case (Some t)
  then obtain P where P: "v = Bytes P" "find_null_terminator P i = Some t"
    by (cases v) (simp_all add: scan_val_def)
  from find_null_terminator_st_of_pure [OF P(2)] assms P(1) Some show ?thesis by simp
qed

lemma is_FN_response_st_eq:
  assumes "heap s a = Some (Dict d)"
  shows "is_FN_response_st s a =
     (case is_FN_response_dict d of Inl e \<Rightarrow> Inl (Py e) | Inr b \<Rightarrow> Inr b)"
  using assms
  by (simp add: is_FN_response_st_def is_FN_response_dict_def getitem_Dict
        split: option.splits)

lemma length_check_with_dict:
  assumes "a \<noteq> next_addr s" and "getitem s a ''parameter'' = Inr v"
  shows "length_check a r n (with_dict s d) =
     (if n + 9 \<noteq> len_val v
      then Raises (Py (ValueError_ND_length (len_val v) (n + 9)), with_dict s d)
      else Returns (Some r, with_dict s d))"
  using assms by (simp add: length_check_def getitem_with_dict)


lemma optional_fields_st_with_dict:
  assumes "a \<noteq> next_addr s" and "getitem s a ''parameter'' = Inr v"
  shows "optional_fields_st a (next_addr s) t (with_dict s d) =
     (case (if int (len_val v) - int t - 9 = 4 then
              (put_slices v [(''device_type_id'', t + 9, t + 13)] d, t + 4)
            else if int (len_val v) - int t - 9 = 5 then
              (put_slices v [(''device_type_id'', t + 9, t + 13), (''rssi'', t + 13, t + 14)] d,
               t + 5)
            else (d, t)) of
        (res, t') \<Rightarrow>
          if t' + 9 \<noteq> len_val v
          then Raises (Py (ValueError_ND_length (len_val v) (t' + 9)), with_dict s res)
          else Returns (Some (next_addr s), with_dict s res))"
proof -
  note g = getitem_with_dict [OF assms(1), of _ "''parameter''", unfolded assms(2)]
  note ss = store_slices_with_dict [OF assms]
  note lc = length_check_with_dict [OF assms]
  consider (four) "int (len_val v) - int t - 9 = 4"
    | (five) "int (len_val v) - int t - 9 = 5"
    | (none) "int (len_val v) - int t - 9 \<noteq> 4" "int (len_val v) - int t - 9 \<noteq> 5"
    by blast
  then show ?thesis
  proof cases
    case four
    then show ?thesis
      by (simp add: optional_fields_st_def g ss lc del: store_slices.simps)
  next
    case five
    then show ?thesis
      by (simp add: optional_fields_st_def g ss lc del: store_slices.simps)
  next
    case none
    then show ?thesis
      by (simp add: optional_fields_st_def g ss lc del: store_slices.simps)
  qed
qed

lemma parse_FN_at_response_st_eq:
  assumes "heap s a = Some (Dict d)" and "a \<noteq> next_addr s"
  shows "parse_FN_at_response_st a s =
    (case is_FN_response_dict d of
       Inl e \<Rightarrow> Raises (Py e, s)
     | Inr False \<Rightarrow> Returns (None, s)
     | Inr True \<Rightarrow>
         (case d ''parameter'' of
            None \<Rightarrow> Raises (Py (KeyError ''parameter''), with_dict s Map.empty)
          | Some v \<Rightarrow>
              (case scan_val v 10 of
                 None \<Rightarrow> Diverges
               | Some t \<Rightarrow>
                   (case built_dict v t of
                      (res, t') \<Rightarrow>
                        if t' + 9 \<noteq> len_val v
                        then Raises (Py (ValueError_ND_length (len_val v) (t' + 9)),
                                     with_dict s res)
                        else Returns (Some (next_addr s), with_dict s res)))))"
proof (cases "is_FN_response_dict d")
  case (Inl e)
  then show ?thesis
    by (simp add: parse_FN_at_response_st_def is_FN_response_st_eq [OF assms(1)])
next
  case (Inr b)
  show ?thesis
  proof (cases b)
    case False
    with Inr show ?thesis
      by (simp add: parse_FN_at_response_st_def is_FN_response_st_eq [OF assms(1)])
  next
    case True
    show ?thesis
    proof (cases "d ''parameter''")
      case None
      then have g: "getitem s a ''parameter'' = Inl (Py (KeyError ''parameter''))"
        using assms(1) by (simp add: getitem_Dict)
      have "store_slice a (next_addr s) ''source_addr'' 0 2 (with_dict s Map.empty)
          = Inl (Py (KeyError ''parameter''))"
        by (simp add: store_slice_def getitem_with_dict [OF assms(2)] g)
      with Inr True None show ?thesis
        by (simp add: parse_FN_at_response_st_def is_FN_response_st_eq [OF assms(1)] new_dict_eq)
    next
      case (Some v)
      then have g: "getitem s a ''parameter'' = Inr v"
        using assms(1) by (simp add: getitem_Dict)
      note ss = store_slices_with_dict [OF assms(2) g]
      have gw: "getitem (with_dict s d') a ''parameter'' = Inr v" for d'
        by (simp add: getitem_with_dict [OF assms(2)] g)
      note fs = find_null_terminator_st_eq [OF gw]
      show ?thesis
      proof (cases "scan_val v 10")
        case None
        with Inr True Some show ?thesis
          by (simp add: parse_FN_at_response_st_def is_FN_response_st_eq [OF assms(1)]
                new_dict_eq ss fs del: store_slices.simps)
      next
        case (Some t)
        let ?d3 = "put_slices v
            [(''node_identifier'', 10, t), (''parent_address'', t + 1, t + 3),
             (''device_type'', t + 3, t + 4), (''status'', t + 4, t + 5),
             (''profile_id'', t + 5, t + 7), (''manufacturer'', t + 7, t + 9)]
            (put_slices v [(''source_addr'', 0, 2), (''source_addr_long'', 2, 10)] Map.empty)"
        have "parse_FN_at_response_st a s
            = optional_fields_st a (next_addr s) t (with_dict s ?d3)"
          using Inr True Some \<open>d ''parameter'' = Some v\<close>
          by (simp add: parse_FN_at_response_st_def is_FN_response_st_eq [OF assms(1)]
                new_dict_eq ss fs del: store_slices.simps put_slices.simps)
        then show ?thesis
          using Inr True Some \<open>d ''parameter'' = Some v\<close>
          by (simp add: optional_fields_st_with_dict [OF assms(2) g] built_dict_def Let_def)
      qed
    qed
  qed
qed

lemma with_dict_frame:
  "x \<noteq> next_addr s \<Longrightarrow> heap (with_dict s d) x = heap s x"
  "heap (with_dict s d) (next_addr s) = Some (Dict d)"
  "next_addr (with_dict s d) = next_addr s + 1"
  by (simp_all add: with_dict_def)

lemma final_state_cases:
  assumes "heap s a = Some (Dict d)" and "a \<noteq> next_addr s"
    and "final_state (parse_FN_at_response_st a s) = Some s'"
  shows "s' = s \<or> (\<exists>d'. s' = with_dict s d')"
  using assms(3) unfolding parse_FN_at_response_st_eq [OF assms(1,2)]
  by (auto split: sum.splits bool.splits option.splits prod.splits if_splits)

lemma returned_address:
  assumes "heap s a = Some (Dict d)" and "a \<noteq> next_addr s"
    and "parse_FN_at_response_st a s = Returns (Some r, s')"
  shows "r = next_addr s"
  using assms(3) unfolding parse_FN_at_response_st_eq [OF assms(1,2)]
  by (auto split: sum.splits bool.splits option.splits prod.splits if_splits)

lemma observe_parse_FN_at_response_st:
  assumes "heap s a = Some (Dict d)" and "a \<noteq> next_addr s"
  shows "observe (parse_FN_at_response_st a s) = outcome_of_dict d"
  unfolding parse_FN_at_response_st_eq [OF assms] outcome_of_dict_def
  by (simp add: with_dict_frame split: sum.splits bool.splits option.splits prod.splits)

text \<open>
  The store lets a program write what it likes: an assignment into the record handed to
  the rule changes that record, and the class with its tables can be replaced. That
  the method does neither is a property of the method.
\<close>

lemma setitem_writes_any_dict:
  assumes "heap s a = Some (Dict d)"
  shows "\<exists>s'. setitem s a k v = Inr s' \<and> heap s' a = Some (Dict (d(k \<mapsto> v)))"
  using assms by (simp add: setitem_def write_object_def)

lemma write_object_overwrites: "heap (write_object c obj s) c = Some obj"
  by (simp add: write_object_def)

text \<open>
  On the dictionary of a record of the first model the method on the store computes
  what \<open>parse_FN_at_response\<close> computes, the bytes of the result wrapped as values.
\<close>

lemma is_FN_response_dict_of:
  "is_FN_response_dict (dict_of i) = is_FN_response i"
  by (simp add: is_FN_response_dict_def dict_of_def is_FN_response_def lower_is_fn_def
        split: option.splits)

lemma built_dict_Bytes:
  "built_dict (Bytes P) t =
     (case optional_fields P t (fixed_fields P t) of
        (res, t') \<Rightarrow> (\<lambda>k. map_option Bytes (res k), t'))"
  by (auto simp: built_dict_def Let_def optional_fields_def fixed_fields_def len_val_def
        slice_val_def fun_eq_iff)

lemma outcome_of_dict_of:
  "outcome_of_dict (dict_of i) =
     (case parse_FN_at_response i of
        Diverges \<Rightarrow> Diverges
      | Raises e \<Rightarrow> Raises (Py e)
      | Returns None \<Rightarrow> Returns None
      | Returns (Some r) \<Rightarrow> Returns (Some (\<lambda>k. map_option Bytes (r k))))"
proof -
  have p: "dict_of i ''parameter'' = map_option Bytes (item i ''parameter'')"
    by (simp add: dict_of_def)
  show ?thesis
    unfolding outcome_of_dict_def is_FN_response_dict_of parse_FN_at_response_def
      parse_parameter_def p
    by (simp add: scan_val_def built_dict_Bytes len_val_def
          split: sum.splits bool.splits option.splits prod.splits)
qed

text \<open>
  Claim C9. Let a dictionary \<open>d\<close> stand at address \<open>a\<close> of a state in which every
  object lies below the next free address. A run of the method on \<open>a\<close> that ends, by
  returning or by raising, leaves the dictionary at \<open>a\<close> and every object the state
  held as they were, the class with its two tables among them; a dictionary it returns
  stands at an address that held no object before. And a run on an equal dictionary in
  any other such state, at any address and beside any other objects, diverges, raises
  or returns alike, with equal contents of the dictionary returned.
\<close>

theorem parse_FN_at_response_reads_only:
  assumes "heap s a = Some (Dict d)" and "\<forall>x\<in>dom (heap s). x < next_addr s"
    and "heap s2 a2 = Some (Dict d)" and "\<forall>x\<in>dom (heap s2). x < next_addr s2"
  shows "(\<forall>s'. final_state (parse_FN_at_response_st a s) = Some s' \<longrightarrow>
            heap s' a = Some (Dict d) \<and>
            (\<forall>x\<in>dom (heap s). heap s' x = heap s x) \<and>
            (\<forall>c cmds resps. heap s c = Some (Class cmds resps) \<longrightarrow>
               heap s' c = Some (Class cmds resps))) \<and>
         (\<forall>r s'. parse_FN_at_response_st a s = Returns (Some r, s') \<longrightarrow> r \<notin> dom (heap s)) \<and>
         observe (parse_FN_at_response_st a s) = observe (parse_FN_at_response_st a2 s2)"
proof -
  from assms(1,2) have ne: "a \<noteq> next_addr s" by fastforce
  from assms(3,4) have ne2: "a2 \<noteq> next_addr s2" by fastforce
  have fresh: "x \<noteq> next_addr s" if "x \<in> dom (heap s)" for x
    using assms(2) that by fastforce
  have frame: "\<forall>x\<in>dom (heap s). heap s' x = heap s x"
    if "final_state (parse_FN_at_response_st a s) = Some s'" for s'
  proof -
    from final_state_cases [OF assms(1) ne that]
    consider "s' = s" | d' where "s' = with_dict s d'" by blast
    then show ?thesis by cases (simp_all add: with_dict_frame fresh)
  qed
  have one: "heap s' a = Some (Dict d) \<and>
            (\<forall>x\<in>dom (heap s). heap s' x = heap s x) \<and>
            (\<forall>c cmds resps. heap s c = Some (Class cmds resps) \<longrightarrow>
               heap s' c = Some (Class cmds resps))"
    if "final_state (parse_FN_at_response_st a s) = Some s'" for s'
    using frame [OF that] assms(1) by (metis domI)
  have two: "r \<notin> dom (heap s)"
    if "parse_FN_at_response_st a s = Returns (Some r, s')" for r s'
    using returned_address [OF assms(1) ne that] fresh by blast
  have three: "observe (parse_FN_at_response_st a s) = observe (parse_FN_at_response_st a2 s2)"
    by (simp add: observe_parse_FN_at_response_st [OF assms(1) ne]
          observe_parse_FN_at_response_st [OF assms(3) ne2])
  from one two three show ?thesis by blast
qed

theorem parse_FN_at_response_reads_only_witness:
  "parse_FN_at_response_st 0 initial_state
     = Returns (Some 2, with_dict initial_state (\<lambda>k. map_option Bytes (fixed_fields nd_payload 12 k))) \<and>
   heap (with_dict initial_state (\<lambda>k. map_option Bytes (fixed_fields nd_payload 12 k))) 0
     = Some (Dict at_response_dict) \<and>
   heap (with_dict initial_state (\<lambda>k. map_option Bytes (fixed_fields nd_payload 12 k))) 1
     = Some (Class api_commands api_responses) \<and>
   observe (parse_FN_at_response_st 0
              (with_dict initial_state (\<lambda>k. map_option Bytes (fixed_fields nd_payload 12 k))))
     = Returns (Some (\<lambda>k. map_option Bytes (fixed_fields nd_payload 12 k)))"
proof -
  let ?res = "\<lambda>k. map_option Bytes (fixed_fields nd_payload 12 k)"
  let ?s' = "with_dict initial_state ?res"
  have h1: "heap initial_state 0 = Some (Dict at_response_dict)"
    by (simp add: initial_state_def)
  have c1: "heap initial_state 1 = Some (Class api_commands api_responses)"
    by (simp add: initial_state_def)
  have wf1: "\<forall>x\<in>dom (heap initial_state). x < next_addr initial_state"
    by (simp add: initial_state_def)
  have n: "next_addr initial_state = 2" by (simp add: initial_state_def)
  have h2: "heap ?s' 0 = Some (Dict at_response_dict)"
    by (simp add: initial_state_def with_dict_def)
  have wf2: "\<forall>x\<in>dom (heap ?s'). x < next_addr ?s'"
    by (simp add: initial_state_def with_dict_def)
  have t: "is_FN_response_dict at_response_dict = Inr True"
    by (simp add: is_FN_response_dict_def at_response_dict_def lower_is_fn_def lower_FN)
  have p: "at_response_dict ''parameter'' = Some (Bytes nd_payload)"
    by (simp add: at_response_dict_def)
  have f: "scan_val (Bytes nd_payload) 10 = Some 12"
    using nd_payload_terminator(1) by (simp add: scan_val_def terminator_at_iff)
  have l: "length nd_payload = 21" by (simp add: nd_payload_def)
  have b: "built_dict (Bytes nd_payload) 12 = (?res, 12)"
    by (simp add: built_dict_Bytes optional_fields_def l)
  have ret: "parse_FN_at_response_st 0 initial_state = Returns (Some 2, ?s')"
    by (simp add: parse_FN_at_response_st_eq [OF h1] n t p f b len_val_def l)
  have o: "observe (Returns (Some 2, ?s')) = Returns (Some ?res)"
    by (simp add: with_dict_def n)
  from parse_FN_at_response_reads_only [OF h1 wf1 h2 wf2]
  have fr: "\<forall>s'. final_state (parse_FN_at_response_st 0 initial_state) = Some s' \<longrightarrow>
            heap s' 0 = Some (Dict at_response_dict) \<and>
            (\<forall>x\<in>dom (heap initial_state). heap s' x = heap initial_state x) \<and>
            (\<forall>c cmds resps. heap initial_state c = Some (Class cmds resps) \<longrightarrow>
               heap s' c = Some (Class cmds resps))"
    and eq: "observe (parse_FN_at_response_st 0 initial_state)
               = observe (parse_FN_at_response_st 0 ?s')"
    by blast+
  have "final_state (parse_FN_at_response_st 0 initial_state) = Some ?s'"
    unfolding ret by simp
  with fr c1 have "heap ?s' 0 = Some (Dict at_response_dict)"
    "heap ?s' 1 = Some (Class api_commands api_responses)"
    by blast+
  moreover from eq have "observe (parse_FN_at_response_st 0 ?s') = Returns (Some ?res)"
    unfolding ret o by simp
  ultimately show ?thesis using ret by simp
qed

end
